theory Spec2Isabelle
  imports Main "HOL-Library.Sublist"
begin

section \<open>The C library as lg uses it\<close>

text \<open>
  Strings are byte lists. A C string is the run of bytes before the first NUL of its
  buffer; buffers have a fixed size, and a write that does not fit is a fault of the
  program, which the model returns as a value instead of hiding it.
\<close>

definition NUL :: char where
  "NUL = CHR 0x00"

definition NL :: char where
  "NL = CHR 0x0A"

text \<open>\<open>PATH_MAX\<close> of \<open>limits.h\<close> on Linux; lg.c spells the same number \<open>MAX_PATH\<close>.\<close>

definition PATH_MAX :: nat where
  "PATH_MAX = 4096"

definition MAX_PATH :: nat where
  "MAX_PATH = 4096"

definition MAX_FILES :: nat where
  "MAX_FILES = 10000"

definition INITIAL_CAPACITY :: nat where
  "INITIAL_CAPACITY = 100"

datatype fault =
    StackOverflow   \<comment> \<open>a \<open>%s\<close> or \<open>strcpy\<close> stored more bytes than its destination array holds\<close>
  | BufferOverflow  \<comment> \<open>the subprocess runner stored a byte outside its output buffer\<close>
  | HeapOverflow    \<comment> \<open>\<open>strcat\<close> stored a byte outside the block \<open>strdup\<close> allocated\<close>

definition c_str :: "string \<Rightarrow> string" where
  "c_str buf = takeWhile (\<lambda>c. c \<noteq> NUL) buf"

text \<open>\<open>s[i]\<close> for \<open>i \<le> strlen s\<close>: the byte at \<open>strlen s\<close> is the terminator.\<close>

definition c_index :: "string \<Rightarrow> nat \<Rightarrow> char" where
  "c_index s i = (if i < length s then s ! i else NUL)"

text \<open>\<open>isspace\<close> and \<open>tolower\<close> in the "C" locale (lg never calls \<open>setlocale\<close>).\<close>

definition isspace_c :: "char \<Rightarrow> bool" where
  "isspace_c c \<longleftrightarrow> c \<in> {CHR '' '', CHR 0x09, CHR 0x0A, CHR 0x0B, CHR 0x0C, CHR 0x0D}"

definition tolower_c :: "char \<Rightarrow> char" where
  "tolower_c c =
     (let n = (of_char c :: nat) in if 65 \<le> n \<and> n \<le> 90 then char_of (n + 32) else c)"

text \<open>\<open>size_t\<close> subtraction: 64 bits, wrapping.\<close>

definition size_sub :: "nat \<Rightarrow> nat \<Rightarrow> nat" where
  "size_sub a b = (a + 2 ^ 64 - b mod 2 ^ 64) mod 2 ^ 64"

subsection \<open>\<open>sscanf\<close>\<close>

definition skip_ws :: "string \<Rightarrow> string" where
  "skip_ws s = dropWhile isspace_c s"

text \<open>
  One \<open>%s\<close> conversion, with an optional field width: skip white space, then take the
  longest run of bytes that are not white space, at most \<open>width\<close> of them. At the end of
  the input the conversion fails. The result is the token and the unread input.
\<close>

definition scan_s :: "nat option \<Rightarrow> string \<Rightarrow> (string \<times> string) option" where
  "scan_s width s =
     (let s' = skip_ws s;
          tok = takeWhile (\<lambda>c. \<not> isspace_c c) s';
          tok' = (case width of None \<Rightarrow> tok | Some n \<Rightarrow> take n tok)
      in if tok' = [] then None else Some (tok', drop (length tok') s'))"

text \<open>\<open>n\<close> suppressed conversions \<open>%*s\<close> in a row.\<close>

fun skip_fields :: "nat \<Rightarrow> string \<Rightarrow> string option" where
  "skip_fields 0 s = Some s"
| "skip_fields (Suc n) s =
     (case scan_s None s of None \<Rightarrow> None | Some (tok, r) \<Rightarrow> skip_fields n r)"

text \<open>
  \<open>sscanf(line, "%*c %2s %*s %*s %*s %*s %*s %*s %s", xy, path) == 2\<close> with
  \<open>char xy[3], path[PATH_MAX]\<close>. \<open>Inr (Some (xy, path))\<close> is the return value 2,
  \<open>Inr None\<close> any other return value. The last conversion has no width: a token of
  \<open>PATH_MAX\<close> bytes or more does not fit \<open>path\<close> with its terminator.
\<close>

definition sscanf_tracked :: "string \<Rightarrow> fault + (string \<times> string) option" where
  "sscanf_tracked line =
     (case line of
        [] \<Rightarrow> Inr None
      | c # r \<Rightarrow>
          (case scan_s (Some 2) (skip_ws r) of
             None \<Rightarrow> Inr None
           | Some (xy, r1) \<Rightarrow>
               (case skip_fields 6 r1 of
                  None \<Rightarrow> Inr None
                | Some r2 \<Rightarrow>
                    (case scan_s None r2 of
                       None \<Rightarrow> Inr None
                     | Some (p, r3) \<Rightarrow>
                         if PATH_MAX \<le> length p then Inl StackOverflow
                         else Inr (Some (xy, p))))))"

text \<open>\<open>sscanf(line, "? %s", path) == 1\<close> with \<open>char path[PATH_MAX]\<close>.\<close>

definition sscanf_untracked :: "string \<Rightarrow> fault + string option" where
  "sscanf_untracked line =
     (case line of
        [] \<Rightarrow> Inr None
      | c # r \<Rightarrow>
          if c \<noteq> CHR ''?'' then Inr None
          else (case scan_s None (skip_ws r) of
                  None \<Rightarrow> Inr None
                | Some (p, r1) \<Rightarrow>
                    if PATH_MAX \<le> length p then Inl StackOverflow else Inr (Some p)))"

text \<open>
  \<open>sscanf(line, "%2s\t%s", status, path) == 2\<close> of lg.c, with
  \<open>char status[3], path[MAX_PATH]\<close>. The tab of the format is a white-space directive.
\<close>

definition sscanf_name_status :: "string \<Rightarrow> fault + (string \<times> string) option" where
  "sscanf_name_status line =
     (case scan_s (Some 2) line of
        None \<Rightarrow> Inr None
      | Some (st, r1) \<Rightarrow>
          (case scan_s None (skip_ws r1) of
             None \<Rightarrow> Inr None
           | Some (p, r2) \<Rightarrow>
               if MAX_PATH \<le> length p then Inl StackOverflow else Inr (Some (st, p))))"

subsection \<open>\<open>strtok\<close>, \<open>fgets\<close>, \<open>snprintf\<close>\<close>

text \<open>
  The tokens of \<open>strtok(s, "\n")\<close> followed by \<open>strtok(NULL, "\n")\<close> until it returns
  \<open>NULL\<close>: the maximal non-empty runs without a newline.
\<close>

function strtok_lines :: "string \<Rightarrow> string list" where
  "strtok_lines [] = []"
| "strtok_lines (c # s) =
     (if c = NL then strtok_lines s
      else takeWhile (\<lambda>x. x \<noteq> NL) (c # s) # strtok_lines (dropWhile (\<lambda>x. x \<noteq> NL) s))"
  by pat_completeness auto
termination
  by (relation "measure length") (auto simp: length_dropWhile_le less_Suc_eq_le)

text \<open>
  The bytes one \<open>fgets(line, n, fp)\<close> stores for \<open>k = n - 1\<close>: up to \<open>k\<close> bytes,
  stopping after a newline.
\<close>

fun fgets_take :: "nat \<Rightarrow> string \<Rightarrow> string" where
  "fgets_take 0 s = []"
| "fgets_take (Suc k) [] = []"
| "fgets_take (Suc k) (c # s) = (if c = NL then [c] else c # fgets_take k s)"

text \<open>
  All lines a loop \<open>while (fgets(line, n, fp))\<close> sees on a stream, each as the C
  string left in \<open>line\<close>. \<open>fgets\<close> returns \<open>NULL\<close> at the end of the stream.
\<close>

function fgets_lines :: "nat \<Rightarrow> string \<Rightarrow> string list" where
  "fgets_lines n stream =
     (if stream = [] \<or> n \<le> 1 then []
      else c_str (fgets_take (n - 1) stream) #
           fgets_lines n (drop (length (fgets_take (n - 1) stream)) stream))"
  by pat_completeness auto
termination
proof (relation "measure (\<lambda>(n, stream). length stream)")
  show "wf (measure (\<lambda>(n, stream). length stream))" by simp
next
  fix n :: nat and stream :: string
  assume a: "\<not> (stream = [] \<or> n \<le> 1)"
  then obtain k where k: "n - 1 = Suc k" by (cases "n - 1") auto
  from a obtain c s where s: "stream = c # s" by (cases stream) auto
  have "0 < length (fgets_take (n - 1) stream)" unfolding k s by simp
  then show "((n, drop (length (fgets_take (n - 1) stream)) stream), (n, stream))
        \<in> measure (\<lambda>(n, stream). length stream)"
    using s by simp
qed

declare fgets_lines.simps [simp del]

text \<open>
  What \<open>snprintf(buf, n, ...)\<close> stores in \<open>buf\<close> for the formatted text \<open>s\<close> and
  \<open>n > 0\<close> (for \<open>n = 0\<close> it stores nothing).
\<close>

definition snprintf_c :: "nat \<Rightarrow> string \<Rightarrow> string" where
  "snprintf_c n s = take (n - 1) s"

text \<open>\<open>safe_strncpy\<close>: the return value and the content of \<open>dest\<close>.\<close>

definition safe_strncpy :: "string option \<Rightarrow> nat \<Rightarrow> (int \<times> string) option" where
  "safe_strncpy src dest_size =
     (case src of
        None \<Rightarrow> None
      | Some s \<Rightarrow>
          if dest_size = 0 then None
          else if dest_size \<le> length s then Some (- 1, take (dest_size - 1) s)
          else Some (0, s))"

section \<open>lg_v2.c\<close>

subsection \<open>The subprocess runner\<close>

text \<open>
  What a child process does, as far as \<open>exec_git_command\<close> can tell: whether \<open>pipe\<close> and
  \<open>fork\<close> succeed, the portions of standard output that successive \<open>read\<close> calls find
  in the pipe, and the status \<open>waitpid\<close> reports. A child whose \<open>execvp\<close> fails is
  \<open>Exited 1\<close>.
\<close>

datatype wait_status = Exited nat | Signaled nat

record child =
  pipe_ok :: bool
  fork_ok :: bool
  stdout_chunks :: "string list"
  exit_status :: wait_status

text \<open>
  \<open>read(fd, buf, count)\<close> on the pipe: the bytes delivered and the pipe afterwards. An
  empty pipe (or an empty portion) is the return value 0.
\<close>

fun sys_read :: "string list \<Rightarrow> nat \<Rightarrow> string \<times> string list" where
  "sys_read [] count = ([], [])"
| "sys_read (c # cs) count =
     (if length c \<le> count then (c, cs) else (take count c, drop count c # cs))"

text \<open>
  The read loop of \<open>exec_git_command\<close>. \<open>acc\<close> is \<open>output[0 .. total_read)\<close>, so
  \<open>total_read = length acc\<close>; storing \<open>bytes\<close> at \<open>output + total_read\<close> stays inside
  the buffer exactly when \<open>total_read + length bytes \<le> output_size\<close>.
\<close>

function read_loop :: "nat \<Rightarrow> string list \<Rightarrow> string \<Rightarrow> fault + string" where
  "read_loop output_size pipe acc =
     (case sys_read pipe (size_sub (size_sub output_size (length acc)) 1) of
        (bytes, pipe') \<Rightarrow>
          if 0 < length bytes then
            (if output_size < length acc + length bytes then Inl BufferOverflow
             else if size_sub output_size 1 \<le> length (acc @ bytes) then Inr (acc @ bytes)
             else read_loop output_size pipe' (acc @ bytes))
          else Inr acc)"
  by pat_completeness auto
termination
proof (relation "measure (\<lambda>(output_size, pipe, acc). sum_list (map length pipe))")
  show "wf (measure (\<lambda>(output_size, pipe, acc). sum_list (map length pipe)))" by simp
next
  fix output_size :: nat and pipe :: "string list" and acc x :: string
    and bytes :: string and pipe' :: "string list"
  assume r: "(bytes, pipe') = sys_read pipe (size_sub (size_sub output_size (length acc)) 1)"
    and pos: "0 < length bytes"
  have "sum_list (map length pipe') < sum_list (map length pipe)"
  proof (cases pipe)
    case Nil
    with r pos show ?thesis by simp
  next
    case (Cons c cs)
    with r pos show ?thesis by (auto split: if_splits)
  qed
  then show "((output_size, pipe', acc @ bytes), (output_size, pipe, acc))
      \<in> measure (\<lambda>(output_size, pipe, acc). sum_list (map length pipe))"
    by simp
qed

declare read_loop.simps [simp del]

definition exited_zero :: "wait_status \<Rightarrow> bool" where
  "exited_zero w = (case w of Exited n \<Rightarrow> n = 0 | Signaled n \<Rightarrow> False)"

text \<open>
  \<open>exec_git_command(args, output, output_size)\<close>: the return value and the C string in
  \<open>output\<close> afterwards. \<open>output0\<close> is what the buffer held before the call; it is left
  alone when \<open>pipe\<close> or \<open>fork\<close> fails. The argument vectors are fixed in the source, so
  the child stands for the program they start.
\<close>

definition exec_git_command :: "child \<Rightarrow> string \<Rightarrow> nat \<Rightarrow> fault + (int \<times> string)" where
  "exec_git_command ch output0 output_size =
     (if \<not> pipe_ok ch then Inr (- 1, output0)
      else if \<not> fork_ok ch then Inr (- 1, output0)
      else (case read_loop output_size (stdout_chunks ch) [] of
              Inl f \<Rightarrow> Inl f
            | Inr acc \<Rightarrow>
                if output_size \<le> length acc then Inl BufferOverflow
                else Inr (if exited_zero (exit_status ch) then 0 else - 1, c_str acc)))"

subsection \<open>The status context and the parser\<close>

record GitStatus =
  path :: string
  status_staged :: char
  status_unstaged :: char

text \<open>\<open>count\<close> is the length of \<open>statuses\<close>; allocation is taken to succeed.\<close>

record GitContext =
  statuses :: "GitStatus list"
  capacity :: nat
  rel_prefix :: "string option"

definition git_context_create :: GitContext where
  "git_context_create = \<lparr>statuses = [], capacity = INITIAL_CAPACITY, rel_prefix = None\<rparr>"

definition validate_path :: "string option \<Rightarrow> bool" where
  "validate_path p = (case p of None \<Rightarrow> False | Some s \<Rightarrow> \<not> PATH_MAX \<le> length s)"

text \<open>\<open>getcwd(buf, n)\<close> for the working directory \<open>d\<close> (\<open>None\<close>: it cannot be resolved).\<close>

definition getcwd_c :: "string option \<Rightarrow> nat \<Rightarrow> string option" where
  "getcwd_c d n = (case d of None \<Rightarrow> None | Some s \<Rightarrow> if n \<le> length s then None else Some s)"

definition strip_newline :: "string \<Rightarrow> string" where
  "strip_newline s = (if 0 < length s \<and> s ! (length s - 1) = NL then take (length s - 1) s else s)"

text \<open>
  \<open>strcat(dest, src)\<close> for a \<open>dest\<close> that lives in a block of \<open>room\<close> bytes: it stores
  \<open>strlen(dest) + strlen(src) + 1\<close> bytes there, the terminator included.
\<close>

definition strcat_c :: "nat \<Rightarrow> string \<Rightarrow> string \<Rightarrow> fault + string" where
  "strcat_c room dest src =
     (if room < length dest + length src + 1 then Inl HeapOverflow else Inr (dest @ src))"

text \<open>The string at \<open>cwd + strlen(git_root) + 1\<close>, for \<open>strlen(cwd) > strlen(git_root)\<close>.\<close>

definition prefix_remainder :: "string \<Rightarrow> string \<Rightarrow> string" where
  "prefix_remainder git_root cwd = drop (length git_root + 1) cwd"

text \<open>
  The block "Calculate relative prefix" of \<open>get_git_status\<close>: \<open>strdup\<close> of the
  remainder, which allocates \<open>strlen + 1\<close> bytes, then \<open>strcat\<close> of a slash onto that
  block when the copy is not empty. \<open>None\<close> is the \<open>NULL\<close> that \<open>git_context_create\<close>
  left.
\<close>

definition compute_prefix :: "string \<Rightarrow> string \<Rightarrow> fault + string option" where
  "compute_prefix git_root cwd =
     (if length git_root < length cwd then
        (let p = prefix_remainder git_root cwd;
             room = length p + 1
         in if 0 < length p then
              (case strcat_c room p ''/'' of Inl f \<Rightarrow> Inl f | Inr q \<Rightarrow> Inr (Some q))
            else Inr (Some p))
      else Inr None)"

text \<open>The two insertions of the parse loop. Only the first grows the array.\<close>

definition add_tracked :: "GitContext \<Rightarrow> string \<Rightarrow> string \<Rightarrow> GitContext" where
  "add_tracked ctx xy p =
     (let ctx1 = (if capacity ctx \<le> length (statuses ctx)
                  then ctx\<lparr>capacity := capacity ctx * 2\<rparr> else ctx)
      in if length (statuses ctx1) < capacity ctx1
         then ctx1\<lparr>statuses := statuses ctx1 @
                [\<lparr>path = p, status_staged = c_index xy 0, status_unstaged = c_index xy 1\<rparr>]\<rparr>
         else ctx1)"

definition add_untracked :: "GitContext \<Rightarrow> string \<Rightarrow> GitContext" where
  "add_untracked ctx p =
     (if length (statuses ctx) < capacity ctx
      then ctx\<lparr>statuses := statuses ctx @
             [\<lparr>path = p, status_staged = CHR ''?'', status_unstaged = CHR ''?''\<rparr>]\<rparr>
      else ctx)"

text \<open>The body of the \<open>while (line != NULL)\<close> loop for one token of \<open>strtok\<close>.\<close>

definition parse_line :: "string \<Rightarrow> GitContext \<Rightarrow> fault + GitContext" where
  "parse_line line ctx =
     (if c_index line 0 = CHR ''1'' \<or> c_index line 0 = CHR ''2'' then
        (case sscanf_tracked line of
           Inl f \<Rightarrow> Inl f
         | Inr None \<Rightarrow> Inr ctx
         | Inr (Some (xy, p)) \<Rightarrow> Inr (add_tracked ctx xy p))
      else if c_index line 0 = CHR ''?'' then
        (case sscanf_untracked line of
           Inl f \<Rightarrow> Inl f
         | Inr None \<Rightarrow> Inr ctx
         | Inr (Some p) \<Rightarrow> Inr (add_untracked ctx p))
      else Inr ctx)"

fun parse_lines :: "string list \<Rightarrow> GitContext \<Rightarrow> fault + GitContext" where
  "parse_lines [] ctx = Inr ctx"
| "parse_lines (l # ls) ctx =
     (case parse_line l ctx of Inl f \<Rightarrow> Inl f | Inr ctx' \<Rightarrow> parse_lines ls ctx')"

definition parse_status_output :: "string \<Rightarrow> GitContext \<Rightarrow> fault + GitContext" where
  "parse_status_output status_output ctx = parse_lines (strtok_lines status_output) ctx"

text \<open>
  Everything \<open>get_git_status\<close> reads from its surroundings: the working directory
  before and after \<open>chdir\<close>, whether \<open>chdir\<close> succeeds, the two children
  (\<open>git rev-parse --show-toplevel\<close> and \<open>git status --porcelain=v2\<close>), and what the two
  uninitialised stack buffers happen to hold.
\<close>

record env =
  old_dir :: "string option"
  chdir_ok :: bool
  root_child :: child
  cwd :: "string option"
  status_child :: child
  git_root_uninit :: string
  status_output_uninit :: string

definition STATUS_OUTPUT_SIZE :: nat where
  "STATUS_OUTPUT_SIZE = 65536"

definition get_git_status :: "env \<Rightarrow> string option \<Rightarrow> fault + GitContext option" where
  "get_git_status e dir_path =
     (if \<not> validate_path dir_path then Inr None
      else case getcwd_c (old_dir e) PATH_MAX of
        None \<Rightarrow> Inr None
      | Some od \<Rightarrow>
          if \<not> chdir_ok e then Inr None
          else case exec_git_command (root_child e) (git_root_uninit e) PATH_MAX of
            Inl f \<Rightarrow> Inl f
          | Inr (rc, git_root0) \<Rightarrow>
              if rc \<noteq> 0 then Inr None
              else case getcwd_c (cwd e) PATH_MAX of
                None \<Rightarrow> Inr None
              | Some wd \<Rightarrow>
                  (case compute_prefix (strip_newline git_root0) wd of
                     Inl f \<Rightarrow> Inl f
                   | Inr pre \<Rightarrow>
                       (let ctx = git_context_create\<lparr>rel_prefix := pre\<rparr>
                        in case exec_git_command (status_child e) (status_output_uninit e)
                                  STATUS_OUTPUT_SIZE of
                             Inl f \<Rightarrow> Inl f
                           | Inr (rc2, status_output) \<Rightarrow>
                               if rc2 = 0 then
                                 (case parse_status_output status_output ctx of
                                    Inl f \<Rightarrow> Inl f
                                  | Inr ctx' \<Rightarrow> Inr (Some ctx'))
                               else Inr (Some ctx))))"

subsection \<open>Lookup\<close>

text \<open>The \<open>for\<close> loop of \<open>get_file_git_status\<close> over the entries, for the key \<open>full_path\<close>.\<close>

fun status_scan :: "GitStatus list \<Rightarrow> string \<Rightarrow> char" where
  "status_scan [] full_path = CHR '' ''"
| "status_scan (e # es) full_path =
     (if path e = full_path then
        (if status_staged e \<noteq> CHR ''.'' \<and> status_staged e \<noteq> CHR '' '' then status_staged e
         else if status_unstaged e \<noteq> CHR ''.'' \<and> status_unstaged e \<noteq> CHR '' ''
         then tolower_c (status_unstaged e)
         else status_scan es full_path)
      else status_scan es full_path)"

definition full_path_of :: "GitContext \<Rightarrow> string \<Rightarrow> string" where
  "full_path_of ctx filename =
     (case rel_prefix ctx of
        None \<Rightarrow> (case safe_strncpy (Some filename) PATH_MAX of None \<Rightarrow> [] | Some (rc, d) \<Rightarrow> d)
      | Some pre \<Rightarrow>
          if 0 < length pre then snprintf_c PATH_MAX (pre @ filename)
          else (case safe_strncpy (Some filename) PATH_MAX of None \<Rightarrow> [] | Some (rc, d) \<Rightarrow> d))"

definition get_file_git_status :: "GitContext option \<Rightarrow> string option \<Rightarrow> char" where
  "get_file_git_status ctx filename =
     (case ctx of
        None \<Rightarrow> CHR '' ''
      | Some c \<Rightarrow>
          (case filename of
             None \<Rightarrow> CHR '' ''
           | Some f \<Rightarrow> status_scan (statuses c) (full_path_of c f)))"


subsection \<open>Presentation\<close>

definition ESC :: char where
  "ESC = CHR 0x1B"

definition get_git_color :: "char \<Rightarrow> string" where
  "get_git_color status =
     (if status = CHR ''M'' then ESC # ''[38;5;214m''
      else if status = CHR ''m'' then ESC # ''[38;5;178m''
      else if status = CHR ''A'' then ESC # ''[38;5;34m''
      else if status = CHR ''a'' then ESC # ''[38;5;28m''
      else if status = CHR ''D'' then ESC # ''[38;5;167m''
      else if status = CHR ''d'' then ESC # ''[38;5;131m''
      else if status = CHR ''R'' then ESC # ''[38;5;141m''
      else if status = CHR ''r'' then ESC # ''[38;5;97m''
      else if status = CHR ''C'' then ESC # ''[38;5;73m''
      else if status = CHR ''c'' then ESC # ''[38;5;66m''
      else if status = CHR ''?'' then ESC # ''[38;5;245m''
      else if status = CHR ''!'' then ESC # ''[38;5;240m''
      else [])"

text \<open>The glyphs are UTF-8: U+25CF is \<open>E2 97 8F\<close>, U+25CB is \<open>E2 97 8B\<close>.\<close>

definition glyph_staged :: string where
  "glyph_staged = [CHR '' '', CHR 0xE2, CHR 0x97, CHR 0x8F]"

definition glyph_unstaged :: string where
  "glyph_unstaged = [CHR '' '', CHR 0xE2, CHR 0x97, CHR 0x8B]"

definition format_git_status :: "char \<Rightarrow> nat \<Rightarrow> string" where
  "format_git_status status buf_size =
     (if status \<in> {CHR ''M'', CHR ''A'', CHR ''D'', CHR ''R'', CHR ''C''}
      then snprintf_c buf_size glyph_staged
      else if status \<in> {CHR ''m'', CHR ''a'', CHR ''d'', CHR ''r'', CHR ''c''}
      then snprintf_c buf_size glyph_unstaged
      else if status = CHR ''?'' then snprintf_c buf_size '' ?''
      else if status = CHR ''!'' then snprintf_c buf_size '' !''
      else snprintf_c buf_size ''  '')"

text \<open>\<open>main\<close> formats into \<open>char git_str[5]\<close>.\<close>

definition GIT_STR_SIZE :: nat where
  "GIT_STR_SIZE = 5"

section \<open>lg.c\<close>

record GitStatus_v1 =
  v1_path :: string
  v1_status :: char

text \<open>
  The three \<open>popen\<close> loops of \<open>get_git_status\<close> over the lines \<open>fgets\<close> delivers; the
  state is the global table \<open>git_statuses[0 .. git_status_count)\<close>.
\<close>

fun v1_found :: "GitStatus_v1 list \<Rightarrow> string \<Rightarrow> bool" where
  "v1_found [] p = False"
| "v1_found (e # es) p = (if v1_path e = p then True else v1_found es p)"

fun v1_staged_loop :: "string list \<Rightarrow> GitStatus_v1 list \<Rightarrow> fault + GitStatus_v1 list" where
  "v1_staged_loop [] tbl = Inr tbl"
| "v1_staged_loop (l # ls) tbl =
     (case sscanf_name_status l of
        Inl f \<Rightarrow> Inl f
      | Inr None \<Rightarrow> v1_staged_loop ls tbl
      | Inr (Some (st, p)) \<Rightarrow>
          if length tbl < MAX_FILES
          then v1_staged_loop ls (tbl @ [\<lparr>v1_path = p, v1_status = c_index st 0\<rparr>])
          else v1_staged_loop ls tbl)"

fun v1_unstaged_loop :: "string list \<Rightarrow> GitStatus_v1 list \<Rightarrow> fault + GitStatus_v1 list" where
  "v1_unstaged_loop [] tbl = Inr tbl"
| "v1_unstaged_loop (l # ls) tbl =
     (case sscanf_name_status l of
        Inl f \<Rightarrow> Inl f
      | Inr None \<Rightarrow> v1_unstaged_loop ls tbl
      | Inr (Some (st, p)) \<Rightarrow>
          if \<not> v1_found tbl p \<and> length tbl < MAX_FILES
          then v1_unstaged_loop ls
                 (tbl @ [\<lparr>v1_path = p,
                          v1_status = char_of (of_char (c_index st 0) + (32 :: nat))\<rparr>])
          else v1_unstaged_loop ls tbl)"

fun v1_untracked_loop :: "string list \<Rightarrow> GitStatus_v1 list \<Rightarrow> fault + GitStatus_v1 list" where
  "v1_untracked_loop [] tbl = Inr tbl"
| "v1_untracked_loop (l # ls) tbl =
     (let line = takeWhile (\<lambda>c. c \<noteq> NL) l
      in if 0 < length line then
           (if \<not> v1_found tbl line \<and> length tbl < MAX_FILES then
              (if MAX_PATH \<le> length line then Inl StackOverflow
               else v1_untracked_loop ls (tbl @ [\<lparr>v1_path = line, v1_status = CHR ''?''\<rparr>]))
            else v1_untracked_loop ls tbl)
         else v1_untracked_loop ls tbl)"

text \<open>
  The output of the four commands lg.c runs through \<open>popen\<close> (\<open>None\<close>: \<open>popen\<close> itself
  failed): \<open>git rev-parse --git-dir\<close>, \<open>git diff --name-status --cached\<close>,
  \<open>git diff --name-status\<close>, \<open>git ls-files --others --exclude-standard\<close>.
\<close>

record env_v1 =
  git_dir_out :: "string option"
  staged_out :: "string option"
  unstaged_out :: "string option"
  untracked_out :: "string option"

definition LINE_SIZE :: nat where
  "LINE_SIZE = MAX_PATH + 10"

definition v1_phase ::
  "(string list \<Rightarrow> GitStatus_v1 list \<Rightarrow> fault + GitStatus_v1 list) \<Rightarrow> string option \<Rightarrow>
     GitStatus_v1 list \<Rightarrow> fault + GitStatus_v1 list" where
  "v1_phase loop out tbl =
     (case out of None \<Rightarrow> Inr tbl | Some stream \<Rightarrow> loop (fgets_lines LINE_SIZE stream) tbl)"

definition get_git_status_v1 :: "env_v1 \<Rightarrow> GitStatus_v1 list \<Rightarrow> fault + GitStatus_v1 list" where
  "get_git_status_v1 e tbl =
     (case git_dir_out e of
        None \<Rightarrow> Inr tbl
      | Some s \<Rightarrow>
          if fgets_lines LINE_SIZE s = [] then Inr tbl
          else (case v1_phase v1_staged_loop (staged_out e) tbl of
                  Inl f \<Rightarrow> Inl f
                | Inr t1 \<Rightarrow>
                    (case v1_phase v1_unstaged_loop (unstaged_out e) t1 of
                       Inl f \<Rightarrow> Inl f
                     | Inr t2 \<Rightarrow> v1_phase v1_untracked_loop (untracked_out e) t2)))"


definition get_git_color_v1 :: "char \<Rightarrow> string" where
  "get_git_color_v1 status =
     (if status = CHR ''M'' \<or> status = CHR ''m'' then ESC # ''[33m''
      else if status = CHR ''A'' \<or> status = CHR ''a'' then ESC # ''[32m''
      else if status = CHR ''D'' \<or> status = CHR ''d'' then ESC # ''[31m''
      else if status = CHR ''R'' \<or> status = CHR ''r'' then ESC # ''[35m''
      else if status = CHR ''C'' \<or> status = CHR ''c'' then ESC # ''[36m''
      else if status = CHR ''?'' then ESC # ''[90m''
      else if status = CHR ''!'' then ESC # ''[90m''
      else [])"

section \<open>Notions used in the statements\<close>

text \<open>
  The prefix of a context as a string: \<open>get_file_git_status\<close> treats \<open>NULL\<close> and the
  empty string alike.
\<close>

definition relative_prefix :: "GitContext \<Rightarrow> string" where
  "relative_prefix ctx = (case rel_prefix ctx of None \<Rightarrow> [] | Some p \<Rightarrow> p)"

text \<open>A status code that says something: neither \<open>.\<close> nor a space.\<close>

definition has_code :: "char \<Rightarrow> bool" where
  "has_code c \<longleftrightarrow> c \<noteq> CHR ''.'' \<and> c \<noteq> CHR '' ''"

text \<open>
  What the read loop can get out of a pipe: the portions up to the first empty one
  (\<open>read\<close> returning 0 ends the loop).
\<close>

definition delivered :: "string list \<Rightarrow> string" where
  "delivered pipe = concat (takeWhile (\<lambda>c. c \<noteq> []) pipe)"

text \<open>
  A malformed line: one of a record type the parser knows whose \<open>sscanf\<close> does not
  return the expected number of fields.
\<close>

definition malformed_line :: "string \<Rightarrow> bool" where
  "malformed_line l \<longleftrightarrow>
     ((c_index l 0 = CHR ''1'' \<or> c_index l 0 = CHR ''2'') \<and> sscanf_tracked l = Inr None)
     \<or> (c_index l 0 = CHR ''?'' \<and> sscanf_untracked l = Inr None)"

text \<open>A field as \<open>%s\<close> reads it: not empty and free of white space.\<close>

definition no_space :: "string \<Rightarrow> bool" where
  "no_space s \<longleftrightarrow> s \<noteq> [] \<and> list_all (\<lambda>c. \<not> isspace_c c) s"

section \<open>Concrete inputs\<close>

definition ctx_demo :: GitContext where
  "ctx_demo = \<lparr>statuses =
      [\<lparr>path = ''src/main.c'', status_staged = CHR ''M'', status_unstaged = CHR ''M''\<rparr>,
       \<lparr>path = ''src/util.c'', status_staged = CHR ''.'', status_unstaged = CHR ''M''\<rparr>,
       \<lparr>path = ''src/same.c'', status_staged = CHR ''.'', status_unstaged = CHR ''.''\<rparr>],
     capacity = 100, rel_prefix = Some ''src/''\<rparr>"

text \<open>
  A listing directory 39 levels and 3900 bytes below the repository root, holding a
  modified file whose name is 195 letters; \<open>long_name\<close> is the name of a second file
  there and \<open>long_path\<close> its path from the root.
\<close>

definition deep_prefix :: string where
  "deep_prefix = concat (replicate 39 (replicate 99 (CHR ''d'') @ ''/''))"

definition ctx_deep :: GitContext where
  "ctx_deep = \<lparr>statuses =
      [\<lparr>path = deep_prefix @ replicate 195 (CHR ''a''), status_staged = CHR ''M'',
        status_unstaged = CHR ''.''\<rparr>],
     capacity = 100, rel_prefix = Some deep_prefix\<rparr>"

definition long_name :: string where
  "long_name = replicate 200 (CHR ''a'')"

definition long_path :: string where
  "long_path = deep_prefix @ long_name"

definition line_main :: string where
  "line_main = ''1 M. N... 100644 100644 100644 abc123 def456 src/main.c''"

text \<open>A rename record of \<open>git status --porcelain=v2\<close>: score, new path, tab, old path.\<close>

definition line_rename :: string where
  "line_rename =
     ''2 R. N... 100644 100644 100644 abc123 abc123 R100 new.c'' @ [CHR 0x09] @ ''old.c''"

definition line_truncated :: string where
  "line_truncated = ''1 .M N... 100644 100644''"

text \<open>
  A git that exits with \<open>code\<close> after writing \<open>out\<close>; lg started in the root \<open>/r\<close> of
  a repository, and in its directory \<open>/r/sub\<close>.
\<close>

definition git_exits :: "nat \<Rightarrow> string \<Rightarrow> child" where
  "git_exits code out =
     \<lparr>pipe_ok = True, fork_ok = True, stdout_chunks = [out], exit_status = Exited code\<rparr>"

definition env_at_root :: "child \<Rightarrow> child \<Rightarrow> env" where
  "env_at_root rc sc =
     \<lparr>old_dir = Some ''/home/u'', chdir_ok = True, root_child = rc, cwd = Some ''/r'',
      status_child = sc, git_root_uninit = [], status_output_uninit = []\<rparr>"

definition env_in_sub :: env where
  "env_in_sub = env_at_root (git_exits 0 (''/r'' @ [NL])) (git_exits 0 [])
                  \<lparr>cwd := Some ''/r/sub''\<rparr>"



text \<open>A status output whose first record is the untracked file \<open>long_path\<close>.\<close>

definition env_long_path :: "string \<Rightarrow> env" where
  "env_long_path tail = env_at_root (git_exits 0 (''/r'' @ [NL]))
     (git_exits 0 (''? '' @ long_path @ [NL] @ tail))"

definition ctx_after_rename :: GitContext where
  "ctx_after_rename =
     \<lparr>statuses = [\<lparr>path = ''R100'', status_staged = CHR ''R'', status_unstaged = CHR ''.''\<rparr>],
      capacity = 100, rel_prefix = None\<rparr>"

definition ctx_after_space :: GitContext where
  "ctx_after_space =
     \<lparr>statuses = [\<lparr>path = ''my'', status_staged = CHR ''?'', status_unstaged = CHR ''?''\<rparr>],
      capacity = 100, rel_prefix = None\<rparr>"


definition env_staged_spaces :: env_v1 where
  "env_staged_spaces =
     \<lparr>git_dir_out = Some (''.git'' @ [CHR 0x0A]),
      staged_out = Some (''M'' @ [CHR 0x09] @ ''my a.txt'' @ [CHR 0x0A]
                         @ ''A'' @ [CHR 0x09] @ ''my b.txt'' @ [CHR 0x0A]),
      unstaged_out = Some [],
      untracked_out = Some []\<rparr>"


text \<open>
  A status output of a hundred untracked records \<open>? f\<close>, \<open>? ff\<close>, ..., a truncated
  record, and the untracked record \<open>? last.txt\<close>; and the context the parser is then
  expected to stop at.
\<close>

definition untracked_names :: "nat \<Rightarrow> string list" where
  "untracked_names n = map (\<lambda>i. replicate (Suc i) (CHR ''f'')) [0..<n]"

definition untracked_entry :: "string \<Rightarrow> GitStatus" where
  "untracked_entry p = \<lparr>path = p, status_staged = CHR ''?'', status_unstaged = CHR ''?''\<rparr>"

definition output_101 :: string where
  "output_101 = concat (map (\<lambda>p. ''? '' @ p @ [NL]) (untracked_names INITIAL_CAPACITY))
                  @ line_truncated @ [NL] @ ''? last.txt''"

definition ctx_full :: GitContext where
  "ctx_full = \<lparr>statuses = map untracked_entry (untracked_names INITIAL_CAPACITY),
               capacity = INITIAL_CAPACITY, rel_prefix = None\<rparr>"

section \<open>Properties of the presentation mapping\<close>

lemma snprintf_fits: "length s < n \<Longrightarrow> snprintf_c n s = s"
  by (simp add: snprintf_c_def)

text \<open>
  C6, as the code has it. In lg_v2.c, \<open>format_git_status\<close> (into a buffer of at least
  the five bytes \<open>main\<close> provides) gives a blank and the solid glyph U+25CF for every
  upper-case code, a blank and the hollow glyph U+25CB for every lower-case code, a
  blank and the character itself for \<open>?\<close> and \<open>!\<close>, and two blanks for the space;
  \<open>get_git_color\<close> gives the thirteen characters of the alphabet the tokens listed,
  gray 245 and 240 of the 256-colour palette for \<open>?\<close> and \<open>!\<close> and the empty token for
  the space, all pairwise different. The table of lg.c, which has no glyphs, gives a
  letter one colour in both cases and \<open>?\<close> and \<open>!\<close> the same gray.
\<close>

theorem present_alphabet:
  assumes "5 \<le> n"
  shows "(\<forall>c \<in> set ''MADRC''. format_git_status c n = [CHR '' '', CHR 0xE2, CHR 0x97, CHR 0x8F])
       \<and> (\<forall>c \<in> set ''madrc''. format_git_status c n = [CHR '' '', CHR 0xE2, CHR 0x97, CHR 0x8B])
       \<and> format_git_status (CHR ''?'') n = '' ?''
       \<and> format_git_status (CHR ''!'') n = '' !''
       \<and> format_git_status (CHR '' '') n = ''  ''
       \<and> GIT_STR_SIZE = 5
       \<and> map get_git_color ''MmAaDdRrCc?! '' =
           [CHR 0x1B # ''[38;5;214m'', CHR 0x1B # ''[38;5;178m'',
            CHR 0x1B # ''[38;5;34m'', CHR 0x1B # ''[38;5;28m'',
            CHR 0x1B # ''[38;5;167m'', CHR 0x1B # ''[38;5;131m'',
            CHR 0x1B # ''[38;5;141m'', CHR 0x1B # ''[38;5;97m'',
            CHR 0x1B # ''[38;5;73m'', CHR 0x1B # ''[38;5;66m'',
            CHR 0x1B # ''[38;5;245m'', CHR 0x1B # ''[38;5;240m'', []]
       \<and> distinct (map get_git_color ''MmAaDdRrCc?! '')
       \<and> map get_git_color_v1 ''MmAaDdRrCc?! '' =
           [CHR 0x1B # ''[33m'', CHR 0x1B # ''[33m'', CHR 0x1B # ''[32m'', CHR 0x1B # ''[32m'',
            CHR 0x1B # ''[31m'', CHR 0x1B # ''[31m'', CHR 0x1B # ''[35m'', CHR 0x1B # ''[35m'',
            CHR 0x1B # ''[36m'', CHR 0x1B # ''[36m'', CHR 0x1B # ''[90m'', CHR 0x1B # ''[90m'', []]"
proof -
  from assms have n: "4 < n" "2 < n" by simp_all
  have g: "snprintf_c n glyph_staged = [CHR '' '', CHR 0xE2, CHR 0x97, CHR 0x8F]"
    "snprintf_c n glyph_unstaged = [CHR '' '', CHR 0xE2, CHR 0x97, CHR 0x8B]"
    using n by (simp_all add: snprintf_fits glyph_staged_def glyph_unstaged_def)
  have t: "snprintf_c n '' ?'' = '' ?''" "snprintf_c n '' !'' = '' !''" "snprintf_c n ''  '' = ''  ''"
    using n by (simp_all add: snprintf_fits)
  have up: "\<forall>c \<in> set ''MADRC''. format_git_status c n = [CHR '' '', CHR 0xE2, CHR 0x97, CHR 0x8F]"
    by (simp add: format_git_status_def g)
  have lo: "\<forall>c \<in> set ''madrc''. format_git_status c n = [CHR '' '', CHR 0xE2, CHR 0x97, CHR 0x8B]"
    by (simp add: format_git_status_def g)
  have other: "format_git_status (CHR ''?'') n = '' ?''" "format_git_status (CHR ''!'') n = '' !''"
    "format_git_status (CHR '' '') n = ''  ''"
    by (simp_all add: format_git_status_def t)
  have sz: "GIT_STR_SIZE = 5" by (simp add: GIT_STR_SIZE_def)
  have col: "map get_git_color ''MmAaDdRrCc?! '' =
           [CHR 0x1B # ''[38;5;214m'', CHR 0x1B # ''[38;5;178m'',
            CHR 0x1B # ''[38;5;34m'', CHR 0x1B # ''[38;5;28m'',
            CHR 0x1B # ''[38;5;167m'', CHR 0x1B # ''[38;5;131m'',
            CHR 0x1B # ''[38;5;141m'', CHR 0x1B # ''[38;5;97m'',
            CHR 0x1B # ''[38;5;73m'', CHR 0x1B # ''[38;5;66m'',
            CHR 0x1B # ''[38;5;245m'', CHR 0x1B # ''[38;5;240m'', []]"
    by (simp add: get_git_color_def ESC_def)
  have d: "distinct (map get_git_color ''MmAaDdRrCc?! '')"
    unfolding col by simp
  have v1: "map get_git_color_v1 ''MmAaDdRrCc?! '' =
           [CHR 0x1B # ''[33m'', CHR 0x1B # ''[33m'', CHR 0x1B # ''[32m'', CHR 0x1B # ''[32m'',
            CHR 0x1B # ''[31m'', CHR 0x1B # ''[31m'', CHR 0x1B # ''[35m'', CHR 0x1B # ''[35m'',
            CHR 0x1B # ''[36m'', CHR 0x1B # ''[36m'', CHR 0x1B # ''[90m'', CHR 0x1B # ''[90m'', []]"
    by (simp add: get_git_color_v1_def ESC_def)
  from up lo other sz col d v1 show ?thesis by blast
qed

theorem present_alphabet_witness:
  "(5 :: nat) \<le> 5
     \<and> format_git_status (CHR ''M'') GIT_STR_SIZE = [CHR '' '', CHR 0xE2, CHR 0x97, CHR 0x8F]
     \<and> format_git_status (CHR ''d'') GIT_STR_SIZE = [CHR '' '', CHR 0xE2, CHR 0x97, CHR 0x8B]
     \<and> get_git_color (CHR ''M'') = CHR 0x1B # ''[38;5;214m''
     \<and> get_git_color (CHR ''m'') = CHR 0x1B # ''[38;5;178m''"
proof -
  have h: "(5 :: nat) \<le> 5" by simp
  from present_alphabet [OF h] show ?thesis by (simp add: GIT_STR_SIZE_def)
qed

text \<open>
  C6 as stated fails on lg.c, whose \<open>get_git_color\<close> folds the case: a staged and an
  unstaged code share their colour token there, so the tokens of the alphabet are not
  pairwise different.
\<close>

theorem color_table_counterexample:
  "get_git_color_v1 (CHR ''M'') = get_git_color_v1 (CHR ''m'')
   \<and> get_git_color_v1 (CHR ''?'') = get_git_color_v1 (CHR ''!'')
   \<and> \<not> distinct (map get_git_color_v1 ''MmAaDdRrCc?! '')"
  by (simp add: get_git_color_v1_def)

text \<open>
  C10. Outside the alphabet both functions take their default branch: the glyph is the
  one of the space (two blanks in \<open>main\<close>'s buffer) and the colour token is the empty
  one of the space, whatever the byte.
\<close>

theorem present_outside_alphabet:
  assumes "c \<notin> set ''MmAaDdRrCc?! ''"
  shows "format_git_status c n = format_git_status (CHR '' '') n
       \<and> format_git_status c GIT_STR_SIZE = ''  ''
       \<and> get_git_color c = []
       \<and> get_git_color c = get_git_color (CHR '' '')"
  using assms by (simp add: format_git_status_def get_git_color_def snprintf_c_def GIT_STR_SIZE_def)

theorem present_outside_alphabet_witness:
  "CHR ''u'' \<notin> set ''MmAaDdRrCc?! '' \<and> format_git_status (CHR ''u'') GIT_STR_SIZE = ''  ''
     \<and> get_git_color (CHR ''u'') = []"
proof -
  have h: "CHR ''u'' \<notin> set ''MmAaDdRrCc?! ''" by simp
  from present_outside_alphabet [OF h, of 5] h show ?thesis by blast
qed

section \<open>Properties of the path prefix\<close>

text \<open>
  What the prefix block does, for any two strings. Only the lengths are compared, and
  whenever the remainder is not empty the slash does not fit the block of the copy.
\<close>

lemma compute_prefix_cases:
  "compute_prefix git_root wd =
     (if length wd \<le> length git_root then Inr None
      else if length wd = length git_root + 1 then Inr (Some [])
      else Inl HeapOverflow)"
  by (auto simp: compute_prefix_def prefix_remainder_def strcat_c_def Let_def)

text \<open>In a block one byte larger the copy would become the remainder and the slash.\<close>

lemma strcat_with_room: "strcat_c (length p + 2) p ''/'' = Inr (p @ ''/'')"
  by (simp add: strcat_c_def)

lemma prefix_remainder_nested: "prefix_remainder root (root @ ''/'' @ rest) = rest"
  by (simp add: prefix_remainder_def)

text \<open>
  The remainder is cut by length alone: out of the middle of a directory that does not
  extend the root, and one byte too far in when the root itself ends with the separator.
\<close>

lemma prefix_remainder_unrelated:
  "\<not> prefix ''/r'' ''/xyz/q'' \<and> prefix_remainder ''/r'' ''/xyz/q'' = ''z/q''"
  by (simp add: prefix_remainder_def)

lemma prefix_remainder_root_slash: "prefix_remainder ''/'' ''/sub'' = ''ub''"
  by (simp add: prefix_remainder_def)

lemma null_prefix_is_empty:
  "full_path_of (ctx\<lparr>rel_prefix := None\<rparr>) f = full_path_of (ctx\<lparr>rel_prefix := Some []\<rparr>) f"
  by (simp add: full_path_of_def)

text \<open>
  C4. For the root \<open>/r\<close> and the working directory \<open>/r/sub\<close>, and likewise for a
  directory 23 bytes below the root, the prefix block copies the remainder into a
  block of \<open>strlen + 1\<close> bytes and then appends the separator to it: the terminator is
  stored one byte past the block, and no prefix \<open>sub/\<close> is established. In the root
  itself there is no prefix.
\<close>

theorem prefix_block_overruns:
  "compute_prefix ''/r'' ''/r/sub'' = Inl HeapOverflow
   \<and> compute_prefix ''/r'' (''/r/'' @ replicate 23 (CHR ''s'')) = Inl HeapOverflow
   \<and> compute_prefix ''/r'' ''/r'' = Inr None"
  by (simp add: compute_prefix_cases)

section \<open>Properties of the lookup\<close>

lemma full_path_of_fits:
  "length (relative_prefix ctx @ name) < PATH_MAX \<Longrightarrow>
     full_path_of ctx name = relative_prefix ctx @ name"
  by (auto simp: full_path_of_def relative_prefix_def safe_strncpy_def snprintf_c_def
      split: option.splits)

lemma full_path_of_cut: "full_path_of ctx name = take (PATH_MAX - 1) (relative_prefix ctx @ name)"
  by (auto simp: full_path_of_def relative_prefix_def safe_strncpy_def snprintf_c_def PATH_MAX_def
      split: option.splits)

lemma status_scan_first_staged:
  "find (\<lambda>e. path e = k) es = Some e \<Longrightarrow> has_code (status_staged e) \<Longrightarrow>
     status_scan es k = status_staged e"
  by (induction es) (auto simp: has_code_def split: if_splits)

lemma status_scan_first_unstaged:
  "find (\<lambda>e. path e = k) es = Some e \<Longrightarrow> \<not> has_code (status_staged e) \<Longrightarrow>
     has_code (status_unstaged e) \<Longrightarrow> status_scan es k = tolower_c (status_unstaged e)"
  by (induction es) (auto simp: has_code_def split: if_splits)

lemma status_scan_clean:
  "\<forall>e \<in> set es. path e = k \<longrightarrow> \<not> has_code (status_staged e) \<and> \<not> has_code (status_unstaged e)
     \<Longrightarrow> status_scan es k = CHR '' ''"
  by (induction es) (auto simp: has_code_def)

lemma tolower_M: "tolower_c (CHR ''M'') = CHR ''m''"
  by code_simp

text \<open>
  The loop, exactly: the first entry whose path is the key and that has a staged or an
  unstaged code decides; an entry with the path and neither code is passed over.
\<close>

lemma status_scan_exact:
  "status_scan es k =
     (case find (\<lambda>e. path e = k \<and> (has_code (status_staged e) \<or> has_code (status_unstaged e))) es of
        None \<Rightarrow> CHR '' ''
      | Some e \<Rightarrow> if has_code (status_staged e) then status_staged e
                  else tolower_c (status_unstaged e))"
  by (induction es) (auto simp: has_code_def)

lemma status_scan_goes_on:
  "status_scan [\<lparr>path = ''f'', status_staged = CHR ''.'', status_unstaged = CHR ''.''\<rparr>,
                \<lparr>path = ''f'', status_staged = CHR ''A'', status_unstaged = CHR ''.''\<rparr>] ''f''
     = CHR ''A''"
  by simp

text \<open>
  For a key \<open>relativePrefix + entryName\<close> shorter than \<open>PATH_MAX\<close> bytes, with \<open>e\<close> the
  first entry whose path is the key: a staged code of \<open>e\<close> is returned as it is;
  otherwise an unstaged code of \<open>e\<close> is returned in lower case; and when every entry
  with that path has neither code, in particular when no entry has that path, the
  result is the space, as it is without a context.
\<close>

lemma lookup_precedence:
  assumes fits: "length (relative_prefix ctx @ name) < PATH_MAX"
  shows "(\<forall>e. find (\<lambda>e. path e = relative_prefix ctx @ name) (statuses ctx) = Some e
              \<and> has_code (status_staged e)
            \<longrightarrow> get_file_git_status (Some ctx) (Some name) = status_staged e)
       \<and> (\<forall>e. find (\<lambda>e. path e = relative_prefix ctx @ name) (statuses ctx) = Some e
              \<and> \<not> has_code (status_staged e) \<and> has_code (status_unstaged e)
            \<longrightarrow> get_file_git_status (Some ctx) (Some name) = tolower_c (status_unstaged e))
       \<and> ((\<forall>e \<in> set (statuses ctx). path e = relative_prefix ctx @ name
              \<longrightarrow> \<not> has_code (status_staged e) \<and> \<not> has_code (status_unstaged e))
            \<longrightarrow> get_file_git_status (Some ctx) (Some name) = CHR '' '')
       \<and> get_file_git_status None (Some name) = CHR '' ''"
proof -
  have k: "get_file_git_status (Some ctx) (Some name)
             = status_scan (statuses ctx) (relative_prefix ctx @ name)"
    by (simp add: get_file_git_status_def full_path_of_fits [OF fits])
  show ?thesis
    unfolding k
    using status_scan_first_staged status_scan_first_unstaged status_scan_clean
    by (auto simp: get_file_git_status_def)
qed

lemma lookup_precedence_demo:
  "length (relative_prefix ctx_demo @ ''main.c'') < PATH_MAX
   \<and> get_file_git_status (Some ctx_demo) (Some ''main.c'') = CHR ''M''
   \<and> get_file_git_status (Some ctx_demo) (Some ''util.c'') = CHR ''m''
   \<and> get_file_git_status (Some ctx_demo) (Some ''same.c'') = CHR '' ''
   \<and> get_file_git_status (Some ctx_demo) (Some ''none.c'') = CHR '' ''"
proof -
  have f: "length (relative_prefix ctx_demo @ ''main.c'') < PATH_MAX"
    "length (relative_prefix ctx_demo @ ''util.c'') < PATH_MAX"
    "length (relative_prefix ctx_demo @ ''same.c'') < PATH_MAX"
    "length (relative_prefix ctx_demo @ ''none.c'') < PATH_MAX"
    by (simp_all add: relative_prefix_def ctx_demo_def PATH_MAX_def)
  have 1: "get_file_git_status (Some ctx_demo) (Some ''main.c'') = CHR ''M''"
    using lookup_precedence [OF f(1)]
    by (simp add: relative_prefix_def ctx_demo_def has_code_def)
  have 2: "get_file_git_status (Some ctx_demo) (Some ''util.c'') = CHR ''m''"
    using lookup_precedence [OF f(2)]
    by (simp add: relative_prefix_def ctx_demo_def has_code_def tolower_M)
  have 3: "get_file_git_status (Some ctx_demo) (Some ''same.c'') = CHR '' ''"
    using lookup_precedence [OF f(3)]
    by (simp add: relative_prefix_def ctx_demo_def has_code_def)
  have 4: "get_file_git_status (Some ctx_demo) (Some ''none.c'') = CHR '' ''"
    using lookup_precedence [OF f(4)]
    by (simp add: relative_prefix_def ctx_demo_def has_code_def)
  from f(1) 1 2 3 4 show ?thesis by simp
qed

lemma length_deep_prefix: "length deep_prefix = 3900"
  by (simp add: deep_prefix_def length_concat sum_list_replicate)

text \<open>\<open>safe_strncpy\<close> reports a cut; \<open>get_file_git_status\<close> does not look at the report.\<close>

lemma safe_strncpy_reports_cut:
  "PATH_MAX \<le> length s \<Longrightarrow> safe_strncpy (Some s) PATH_MAX = Some (- 1, take (PATH_MAX - 1) s)"
  by (simp add: safe_strncpy_def PATH_MAX_def)

text \<open>
  C1. A key of \<open>PATH_MAX\<close> bytes or more is cut to its first \<open>PATH_MAX - 1\<close> bytes
  before the entries are compared. In \<open>ctx_deep\<close> no entry has the path
  \<open>deep_prefix @ long_name\<close>, and the lookup of \<open>long_name\<close> does not return the space:
  it answers with the staged code of the entry whose path is the cut key.
\<close>

theorem lookup_cut_key:
  "get_file_git_status (Some ctx_deep) (Some long_name) = CHR ''M''
   \<and> map path (statuses ctx_deep) = [deep_prefix @ replicate 195 (CHR ''a'')]
   \<and> relative_prefix ctx_deep @ long_name \<noteq> deep_prefix @ replicate 195 (CHR ''a'')
   \<and> length long_name = 200"
proof -
  have "length (relative_prefix ctx_deep @ long_name)
          \<noteq> length (deep_prefix @ replicate 195 (CHR ''a''))"
    by (simp add: relative_prefix_def ctx_deep_def long_name_def)
  then have ne: "relative_prefix ctx_deep @ long_name \<noteq> deep_prefix @ replicate 195 (CHR ''a'')"
    by metis
  have "get_file_git_status (Some ctx_deep) (Some long_name) = CHR ''M''"
    by (simp add: get_file_git_status_def full_path_of_cut relative_prefix_def PATH_MAX_def
        ctx_deep_def long_name_def length_deep_prefix)
  with ne show ?thesis by (simp add: ctx_deep_def long_name_def)
qed

section \<open>Properties of the subprocess runner\<close>
lemma size_sub_le: "b \<le> a \<Longrightarrow> a < 2 ^ 64 \<Longrightarrow> size_sub a b = a - b"
proof -
  assume a: "b \<le> a" "a < 2 ^ 64"
  then have b: "b mod 2 ^ 64 = b" by simp
  have "(a + 2 ^ 64 - b) mod 2 ^ 64 = (a - b + 2 ^ 64) mod 2 ^ 64" using a by simp
  also have "\<dots> = (a - b) mod 2 ^ 64" by simp
  also have "\<dots> = a - b" using a by simp
  finally show ?thesis unfolding size_sub_def b .
qed

lemma delivered_simps [simp]:
  "delivered [] = []"
  "delivered ([] # cs) = []"
  "c \<noteq> [] \<Longrightarrow> delivered (c # cs) = c @ delivered cs"
  by (simp_all add: delivered_def)

lemma read_loop_take:
  "0 < n \<Longrightarrow> n < 2 ^ 64 \<Longrightarrow> length acc \<le> n - 1 \<Longrightarrow>
     read_loop n pipe acc = Inr (take (n - 1) (acc @ delivered pipe))"
proof (induction n pipe acc rule: read_loop.induct)
  case (1 n pipe acc)
  let ?k = "n - 1 - length acc"
  have k: "size_sub (size_sub n (length acc)) 1 = ?k"
  proof -
    have "size_sub n (length acc) = n - length acc" using 1 by (intro size_sub_le) auto
    moreover have "size_sub (n - length acc) 1 = n - length acc - 1"
      using 1 by (intro size_sub_le) auto
    ultimately show ?thesis by simp
  qed
  have s1: "size_sub n 1 = n - 1" using 1 by (intro size_sub_le) auto
  have unf: "read_loop n pipe acc =
      (case sys_read pipe ?k of
         (bytes, pipe') \<Rightarrow>
           if 0 < length bytes then
             (if n < length acc + length bytes then Inl BufferOverflow
              else if n - 1 \<le> length (acc @ bytes) then Inr (acc @ bytes)
              else read_loop n pipe' (acc @ bytes))
           else Inr acc)"
    by (subst read_loop.simps) (simp only: k s1)
  show ?case
  proof (cases pipe)
    case Nil
    then show ?thesis using 1(4) by (subst unf) simp
  next
    case (Cons c cs)
    show ?thesis
    proof (cases "c = []")
      case True
      then show ?thesis using Cons 1(4) by (subst unf) simp
    next
      case ne: False
      show ?thesis
      proof (cases "length c \<le> ?k")
        case whole: True
        then have sr: "sys_read pipe ?k = (c, cs)" by (simp add: Cons)
        have fit: "length acc + length c \<le> n - 1" using whole 1(4) by simp
        show ?thesis
        proof (cases "n - 1 \<le> length (acc @ c)")
          case True
          then have "length (acc @ c) = n - 1" using fit by simp
          then have "take (n - 1) (acc @ delivered pipe) = acc @ c"
            using ne Cons by (metis append.assoc append_eq_conv_conj delivered_simps(3))
          then show ?thesis
            using True ne fit 1(2) by (subst unf [unfolded sr]) simp
        next
          case False
          have "read_loop n cs (acc @ c) = Inr (take (n - 1) ((acc @ c) @ delivered cs))"
          proof (rule "1.IH")
            show "(c, cs) = sys_read pipe (size_sub (size_sub n (length acc)) 1)"
              unfolding k sr ..
            show "0 < length c" using ne by simp
            show "\<not> n < length acc + length c" using fit by simp
            show "\<not> size_sub n 1 \<le> length (acc @ c)" unfolding s1 using False .
            show "0 < n" "n < 2 ^ 64" by fact+
            show "length (acc @ c) \<le> n - 1" using fit by simp
          qed
          then show ?thesis
            using False ne fit Cons by (subst unf [unfolded sr]) simp
        qed
      next
        case part: False
        then have sr: "sys_read pipe ?k = (take ?k c, drop ?k c # cs)" by (simp add: Cons)
        have len: "length acc + ?k = n - 1" using 1(4) by simp
        have tk: "take (n - 1) (acc @ delivered pipe) = acc @ take ?k c"
          using ne Cons 1(4) part by simp
        show ?thesis
        proof (cases "?k = 0")
          case True
          then show ?thesis using tk by (subst unf [unfolded sr]) simp
        next
          case False
          then have "0 < length (take ?k c)" using part by simp
          moreover have "length (acc @ take ?k c) = n - 1" using part len by simp
          ultimately show ?thesis
            using tk 1(2) by (subst unf [unfolded sr]) simp
        qed
      qed
    qed
  qed
qed

text \<open>
  With a buffer of at least one byte the runner never stores a byte outside it, the
  terminator included; what it leaves is the C string of the first \<open>n - 1\<close> bytes the
  child delivered.
\<close>

lemma exec_git_command_bounded:
  assumes "0 < n" "n < 2 ^ 64"
  shows "exec_git_command ch out0 n =
           (if pipe_ok ch \<and> fork_ok ch
            then Inr (if exited_zero (exit_status ch) then 0 else - 1,
                      c_str (take (n - 1) (delivered (stdout_chunks ch))))
            else Inr (- 1, out0))"
proof -
  have rl: "read_loop n (stdout_chunks ch) [] = Inr (take (n - 1) (delivered (stdout_chunks ch)))"
    using read_loop_take [OF assms, of "[]" "stdout_chunks ch"] by simp
  have "length (take (n - 1) (delivered (stdout_chunks ch))) \<le> n - 1" by simp
  with assms(1) have b: "\<not> n \<le> length (take (n - 1) (delivered (stdout_chunks ch)))" by arith
  show ?thesis
    unfolding exec_git_command_def rl using b by (auto simp del: length_take)
qed

lemma exec_git_command_root:
  "exec_git_command ch out0 PATH_MAX =
     (if pipe_ok ch \<and> fork_ok ch
      then Inr (if exited_zero (exit_status ch) then 0 else - 1,
                c_str (take 4095 (delivered (stdout_chunks ch))))
      else Inr (- 1, out0))"
  using exec_git_command_bounded [of PATH_MAX ch out0] by (simp add: PATH_MAX_def)

lemma exec_git_command_status:
  "exec_git_command ch out0 STATUS_OUTPUT_SIZE =
     (if pipe_ok ch \<and> fork_ok ch
      then Inr (if exited_zero (exit_status ch) then 0 else - 1,
                c_str (take 65535 (delivered (stdout_chunks ch))))
      else Inr (- 1, out0))"
  using exec_git_command_bounded [of STATUS_OUTPUT_SIZE ch out0]
  by (simp add: STATUS_OUTPUT_SIZE_def)


section \<open>Properties of the parser\<close>

lemma skip_fields_numeral:
  "skip_fields (numeral k) s =
     (case scan_s None s of None \<Rightarrow> None | Some (tok, r) \<Rightarrow> skip_fields (pred_numeral k) r)"
  by (simp add: numeral_eq_Suc)

lemmas parse_eval =
  parse_status_output_def parse_line_def c_index_def sscanf_tracked_def sscanf_untracked_def
  scan_s_def skip_ws_def isspace_c_def Let_def skip_fields_numeral add_tracked_def
  add_untracked_def git_context_create_def INITIAL_CAPACITY_def PATH_MAX_def NL_def

lemma malformed_truncated: "malformed_line line_truncated"
  by (simp add: malformed_line_def parse_eval line_truncated_def)

lemma takeWhile_no_NL: "NL \<notin> set s \<Longrightarrow> takeWhile (\<lambda>x. x \<noteq> NL) (s @ t) = s @ takeWhile (\<lambda>x. x \<noteq> NL) t"
  by (induction s) auto

lemma dropWhile_no_NL: "NL \<notin> set s \<Longrightarrow> dropWhile (\<lambda>x. x \<noteq> NL) (s @ t) = dropWhile (\<lambda>x. x \<noteq> NL) t"
  by (induction s) auto

lemma takeWhile_all_NL: "NL \<notin> set s \<Longrightarrow> takeWhile (\<lambda>x. x \<noteq> NL) s = s"
  by (induction s) auto

lemma dropWhile_all_NL: "NL \<notin> set s \<Longrightarrow> dropWhile (\<lambda>x. x \<noteq> NL) s = []"
  by (induction s) auto

lemma strtok_lines_append:
  "strtok_lines (a @ NL # b) = strtok_lines a @ strtok_lines b"
proof (induction a rule: strtok_lines.induct)
  case 1
  then show ?case by simp
next
  case (2 c s)
  show ?case
  proof (cases "c = NL")
    case True
    with 2 show ?thesis by simp
  next
    case False
    show ?thesis
    proof (cases "NL \<in> set s")
      case True
      then have "takeWhile (\<lambda>x. x \<noteq> NL) (s @ NL # b) = takeWhile (\<lambda>x. x \<noteq> NL) s"
        "dropWhile (\<lambda>x. x \<noteq> NL) (s @ NL # b) = dropWhile (\<lambda>x. x \<noteq> NL) s @ NL # b"
        by (auto simp: takeWhile_append1 dropWhile_append1)
      with 2 False show ?thesis by simp
    next
      case nin: False
      with False show ?thesis
        by (simp add: takeWhile_no_NL dropWhile_no_NL takeWhile_all_NL dropWhile_all_NL)
    qed
  qed
qed

lemma strtok_lines_single:
  "NL \<notin> set l \<Longrightarrow> strtok_lines l = (if l = [] then [] else [l])"
  by (cases l) (auto simp: takeWhile_all_NL dropWhile_all_NL)

lemma parse_lines_append:
  "parse_lines (xs @ ys) ctx =
     (case parse_lines xs ctx of Inl f \<Rightarrow> Inl f | Inr c \<Rightarrow> parse_lines ys c)"
  by (induction xs arbitrary: ctx) (auto split: sum.splits)

lemma malformed_skipped: "malformed_line l \<Longrightarrow> parse_line l ctx = Inr ctx"
  by (auto simp: malformed_line_def parse_line_def)

lemma parse_lines_filter:
  "parse_lines (filter (\<lambda>l. \<not> malformed_line l) ls) ctx = parse_lines ls ctx"
  by (induction ls arbitrary: ctx) (auto simp: malformed_skipped split: sum.splits)

text \<open>
  A malformed line between two newlines, or after the last one, changes nothing:
  the parse of the output with the line is the parse of the output without it, for
  every output around it and every context, faults included. The line itself leaves
  the context as it was, and the result of any parse is the result of parsing the
  lines that are not malformed, in their order.
\<close>

lemma malformed_line_changes_nothing:
  assumes "malformed_line bad" and "NL \<notin> set bad"
  shows "parse_status_output (pre @ [NL] @ bad @ [NL] @ post) ctx
           = parse_status_output (pre @ [NL] @ post) ctx
       \<and> parse_status_output (pre @ [NL] @ bad) ctx = parse_status_output pre ctx
       \<and> parse_line bad ctx = Inr ctx
       \<and> parse_status_output out ctx
           = parse_lines (filter (\<lambda>l. \<not> malformed_line l) (strtok_lines out)) ctx"
proof -
  have one: "parse_lines (strtok_lines bad) c = Inr c" for c
    using assms by (simp add: strtok_lines_single malformed_skipped)
  have a: "parse_status_output (pre @ [NL] @ bad @ [NL] @ post) ctx
             = parse_status_output (pre @ [NL] @ post) ctx"
    by (simp add: parse_status_output_def strtok_lines_append parse_lines_append one
        split: sum.splits)
  have b: "parse_status_output (pre @ [NL] @ bad) ctx = parse_status_output pre ctx"
    by (simp add: parse_status_output_def strtok_lines_append parse_lines_append one
        split: sum.splits)
  show ?thesis
    using a b assms(1) by (simp add: malformed_skipped parse_lines_filter parse_status_output_def)
qed

lemma malformed_line_changes_nothing_demo:
  "malformed_line line_truncated \<and> NL \<notin> set line_truncated
   \<and> parse_status_output (line_main @ [NL] @ line_truncated @ [NL] @ ''? newfile.txt'')
        git_context_create
     = Inr \<lparr>statuses =
         [\<lparr>path = ''src/main.c'', status_staged = CHR ''M'', status_unstaged = CHR ''.''\<rparr>,
          \<lparr>path = ''newfile.txt'', status_staged = CHR ''?'', status_unstaged = CHR ''?''\<rparr>],
        capacity = 100, rel_prefix = None\<rparr>"
proof -
  have m: "malformed_line line_truncated" by (rule malformed_truncated)
  have n: "NL \<notin> set line_truncated" by (simp add: line_truncated_def NL_def)
  have "parse_status_output (line_main @ [NL] @ ''? newfile.txt'') git_context_create
     = Inr \<lparr>statuses =
         [\<lparr>path = ''src/main.c'', status_staged = CHR ''M'', status_unstaged = CHR ''.''\<rparr>,
          \<lparr>path = ''newfile.txt'', status_staged = CHR ''?'', status_unstaged = CHR ''?''\<rparr>],
        capacity = 100, rel_prefix = None\<rparr>"
    by (simp add: parse_eval line_main_def)
  with malformed_line_changes_nothing [OF m n, THEN conjunct1, of line_main "''? newfile.txt''"
      git_context_create]
  show ?thesis using m n by simp
qed

section \<open>Properties of the engine\<close>

lemmas engine_eval =
  get_git_status_def exec_git_command_root [unfolded PATH_MAX_def]
  exec_git_command_status [unfolded STATUS_OUTPUT_SIZE_def] PATH_MAX_def STATUS_OUTPUT_SIZE_def
  validate_path_def
  getcwd_c_def strip_newline_def compute_prefix_def c_str_def NUL_def exited_zero_def
  git_exits_def env_at_root_def prefix_remainder_def strcat_c_def





text \<open>
  In a directory below the root the engine does not get as far as the status query:
  the prefix block overruns the copy of the remainder.
\<close>

lemma engine_in_subdirectory: "get_git_status env_in_sub (Some ''sub'') = Inl HeapOverflow"
  by (simp add: env_in_sub_def engine_eval NL_def)

section \<open>What a record yields\<close>

lemma isspace_space [simp]: "isspace_c (CHR '' '')"
  by (simp add: isspace_c_def)

lemma scan_s_token:
  assumes "no_space tok" and "rest = [] \<or> isspace_c (hd rest)"
  shows "scan_s None (CHR '' '' # tok @ rest) = Some (tok, rest)"
    and "scan_s None (tok @ rest) = Some (tok, rest)"
proof -
  from assms(1) obtain t ts where tok: "tok = t # ts" and t: "\<not> isspace_c t"
    by (cases tok) (auto simp: no_space_def)
  have all: "\<forall>c \<in> set tok. \<not> isspace_c c" using assms(1) by (simp add: no_space_def list_all_iff)
  have sk: "skip_ws (tok @ rest) = tok @ rest" by (simp add: skip_ws_def tok t)
  have sk2: "skip_ws (CHR '' '' # tok @ rest) = tok @ rest"
    by (simp add: skip_ws_def tok t)
  have tw: "takeWhile (\<lambda>c. \<not> isspace_c c) (tok @ rest) = tok"
  proof -
    have "takeWhile (\<lambda>c. \<not> isspace_c c) rest = []" using assms(2) by (cases rest) auto
    with all show ?thesis by (simp add: takeWhile_append2)
  qed
  have ne: "tok \<noteq> []" by (simp add: tok)
  show "scan_s None (CHR '' '' # tok @ rest) = Some (tok, rest)"
    unfolding scan_s_def Let_def sk2 tw using ne by simp
  show "scan_s None (tok @ rest) = Some (tok, rest)"
    unfolding scan_s_def Let_def sk tw using ne by simp
qed

lemma scan_s_two:
  assumes "no_space xy" and "length xy = 2" and "rest = [] \<or> isspace_c (hd rest)"
  shows "scan_s (Some 2) (skip_ws (CHR '' '' # xy @ rest)) = Some (xy, rest)"
proof -
  from assms(1) obtain t ts where tok: "xy = t # ts" and t: "\<not> isspace_c t"
    by (cases xy) (auto simp: no_space_def)
  have all: "\<forall>c \<in> set xy. \<not> isspace_c c" using assms(1) by (simp add: no_space_def list_all_iff)
  have sk2: "skip_ws (CHR '' '' # xy @ rest) = xy @ rest"
    by (simp add: skip_ws_def tok t)
  have sk: "skip_ws (xy @ rest) = xy @ rest" by (simp add: skip_ws_def tok t)
  have tw: "takeWhile (\<lambda>c. \<not> isspace_c c) (xy @ rest) = xy"
  proof -
    have "takeWhile (\<lambda>c. \<not> isspace_c c) rest = []" using assms(3) by (cases rest) auto
    with all show ?thesis by (simp add: takeWhile_append2)
  qed
  have ne: "xy \<noteq> []" by (simp add: tok)
  show ?thesis
    unfolding sk2 scan_s_def Let_def sk tw using assms(2) ne by simp
qed

lemma skip_fields_spaced:
  assumes "list_all no_space fs" and "rest = [] \<or> isspace_c (hd rest)"
  shows "skip_fields (length fs) (concat (map (\<lambda>f. CHR '' '' # f) fs) @ rest) = Some rest"
  using assms(1)
proof (induction fs)
  case Nil
  then show ?case by simp
next
  case (Cons f fs)
  have sp: "concat (map (\<lambda>f. CHR '' '' # f) fs) @ rest = []
            \<or> isspace_c (hd (concat (map (\<lambda>f. CHR '' '' # f) fs) @ rest))"
    using assms(2) by (cases fs) auto
  from Cons.prems have f: "no_space f" and fs: "list_all no_space fs" by simp_all
  have "scan_s None (CHR '' '' # f @ concat (map (\<lambda>f. CHR '' '' # f) fs) @ rest)
          = Some (f, concat (map (\<lambda>f. CHR '' '' # f) fs) @ rest)"
    by (rule scan_s_token(1) [OF f sp])
  with Cons.IH [OF fs] show ?case by simp
qed

text \<open>
  A record of type 1 or 2 with nine fields separated by single blanks, a code pair of
  two bytes and a path shorter than \<open>PATH_MAX\<close>: the parser appends one entry, with the
  two bytes of the pair and the last field as the path.
\<close>

lemma tracked_nine_fields:
  assumes t: "t = CHR ''1'' \<or> t = CHR ''2''"
    and xy: "no_space xy" "length xy = 2"
    and fs: "list_all no_space fs" "length fs = 6"
    and p: "no_space p" "length p < PATH_MAX"
    and cap: "0 < capacity ctx" "length (statuses ctx) \<le> capacity ctx"
  shows "parse_line (t # CHR '' '' # xy @ concat (map (\<lambda>f. CHR '' '' # f) fs) @ CHR '' '' # p) ctx
           = Inr (add_tracked ctx xy p)"
    and "statuses (add_tracked ctx xy p)
           = statuses ctx @ [\<lparr>path = p, status_staged = xy ! 0, status_unstaged = xy ! 1\<rparr>]"
proof -
  let ?rest = "concat (map (\<lambda>f. CHR '' '' # f) fs) @ CHR '' '' # p"
  have r: "?rest = [] \<or> isspace_c (hd ?rest)" by (cases fs) auto
  have 1: "scan_s (Some 2) (skip_ws (CHR '' '' # xy @ ?rest)) = Some (xy, ?rest)"
    by (rule scan_s_two [OF xy r])
  have 2: "skip_fields 6 ?rest = Some (CHR '' '' # p)"
    using skip_fields_spaced [OF fs(1), of "CHR '' '' # p"] fs(2) by simp
  have 3: "scan_s None (CHR '' '' # p) = Some (p, [])"
    using scan_s_token(1) [OF p(1), of "[]"] by simp
  have "sscanf_tracked (t # CHR '' '' # xy @ ?rest) = Inr (Some (xy, p))"
    unfolding sscanf_tracked_def using p(2) by (simp add: 1 2 3)
  then show "parse_line (t # CHR '' '' # xy @ ?rest) ctx = Inr (add_tracked ctx xy p)"
    using t by (auto simp: parse_line_def c_index_def)
  show "statuses (add_tracked ctx xy p)
           = statuses ctx @ [\<lparr>path = p, status_staged = xy ! 0, status_unstaged = xy ! 1\<rparr>]"
    using cap xy(2) by (auto simp: add_tracked_def c_index_def Let_def)
qed

text \<open>
  An untracked record whose path has no white space: the parser appends the path with
  the pair \<open>??\<close> while the table has room, and drops the record when it has none (the
  branch for untracked records never grows the table).
\<close>

lemma untracked_token:
  assumes p: "no_space p" "length p < PATH_MAX"
  shows "parse_line (''? '' @ p) ctx = Inr (add_untracked ctx p)"
    and "length (statuses ctx) < capacity ctx \<Longrightarrow> statuses (add_untracked ctx p)
           = statuses ctx @ [\<lparr>path = p, status_staged = CHR ''?'', status_unstaged = CHR ''?''\<rparr>]"
    and "capacity ctx \<le> length (statuses ctx) \<Longrightarrow> add_untracked ctx p = ctx"
proof -
  have "scan_s None (skip_ws (CHR '' '' # p)) = Some (p, [])"
    using scan_s_token(2) [OF p(1), of "[]"] p(1)
    by (cases p) (auto simp: skip_ws_def no_space_def)
  then have "sscanf_untracked (''? '' @ p) = Inr (Some p)"
    using p(2) by (simp add: sscanf_untracked_def)
  then show "parse_line (''? '' @ p) ctx = Inr (add_untracked ctx p)"
    by (simp add: parse_line_def c_index_def)
qed (simp_all add: add_untracked_def)

lemma untracked_overflow:
  assumes p: "no_space p" "PATH_MAX \<le> length p"
  shows "parse_line (''? '' @ p) ctx = Inl StackOverflow"
proof -
  have "scan_s None (skip_ws (CHR '' '' # p)) = Some (p, [])"
    using scan_s_token(2) [OF p(1), of "[]"] p(1)
    by (cases p) (auto simp: skip_ws_def no_space_def)
  then have "sscanf_untracked (''? '' @ p) = Inl StackOverflow"
    using p(2) by (simp add: sscanf_untracked_def)
  then show ?thesis by (simp add: parse_line_def c_index_def)
qed

text \<open>
  Whatever follows the ninth field of a record of type 1 or 2, and whatever follows the
  first word of an untracked record, is not read: that field and that word are the path.
\<close>

lemma tracked_ninth_field:
  assumes t: "t = CHR ''1'' \<or> t = CHR ''2''"
    and xy: "no_space xy" "length xy = 2"
    and fs: "list_all no_space fs" "length fs = 6"
    and p: "no_space p" "length p < PATH_MAX"
    and tail: "tail = [] \<or> isspace_c (hd tail)"
  shows "parse_line
           (t # CHR '' '' # xy @ concat (map (\<lambda>f. CHR '' '' # f) fs) @ CHR '' '' # p @ tail) ctx
           = Inr (add_tracked ctx xy p)"
proof -
  let ?rest = "concat (map (\<lambda>f. CHR '' '' # f) fs) @ CHR '' '' # p @ tail"
  have r: "?rest = [] \<or> isspace_c (hd ?rest)" by (cases fs) auto
  have 1: "scan_s (Some 2) (skip_ws (CHR '' '' # xy @ ?rest)) = Some (xy, ?rest)"
    by (rule scan_s_two [OF xy r])
  have 2: "skip_fields 6 ?rest = Some (CHR '' '' # p @ tail)"
    using skip_fields_spaced [OF fs(1), of "CHR '' '' # p @ tail"] fs(2) by simp
  have 3: "scan_s None (CHR '' '' # p @ tail) = Some (p, tail)"
    by (rule scan_s_token(1) [OF p(1) tail])
  have "sscanf_tracked (t # CHR '' '' # xy @ ?rest) = Inr (Some (xy, p))"
    unfolding sscanf_tracked_def using p(2) by (simp add: 1 2 3)
  then show ?thesis
    using t by (auto simp: parse_line_def c_index_def)
qed

lemma untracked_first_word:
  assumes p: "no_space p" "length p < PATH_MAX"
    and tail: "tail = [] \<or> isspace_c (hd tail)"
  shows "parse_line (''? '' @ p @ tail) ctx = Inr (add_untracked ctx p)"
proof -
  have "skip_ws (CHR '' '' # p @ tail) = skip_ws (p @ tail)"
    by (simp add: skip_ws_def)
  moreover have "scan_s None (skip_ws (p @ tail)) = Some (p, tail)"
    using scan_s_token(2) [OF p(1) tail] p(1)
    by (cases p) (auto simp: skip_ws_def no_space_def)
  ultimately have "sscanf_untracked (''? '' @ p @ tail) = Inr (Some p)"
    using p(2) by (simp add: sscanf_untracked_def)
  then show ?thesis
    by (simp add: parse_line_def c_index_def)
qed

lemmas lookup_eval =
  get_file_git_status_def full_path_of_def safe_strncpy_def snprintf_c_def PATH_MAX_def

lemma roundtrip_scenario:
  "parse_status_output line_main (git_context_create\<lparr>rel_prefix := Some ''src/''\<rparr>)
     = Inr \<lparr>statuses = [\<lparr>path = ''src/main.c'', status_staged = CHR ''M'',
                          status_unstaged = CHR ''.''\<rparr>],
            capacity = 100, rel_prefix = Some ''src/''\<rparr>"
  "get_file_git_status
     (Some \<lparr>statuses = [\<lparr>path = ''src/main.c'', status_staged = CHR ''M'',
                          status_unstaged = CHR ''.''\<rparr>],
            capacity = 100, rel_prefix = Some ''src/''\<rparr>) (Some ''main.c'') = CHR ''M''"
  by (simp_all add: parse_eval line_main_def lookup_eval)

lemma untracked_scenario:
  "parse_status_output ''? newfile.txt'' git_context_create
     = Inr \<lparr>statuses = [\<lparr>path = ''newfile.txt'', status_staged = CHR ''?'',
                          status_unstaged = CHR ''?''\<rparr>],
            capacity = 100, rel_prefix = None\<rparr>"
  "get_file_git_status
     (Some \<lparr>statuses = [\<lparr>path = ''newfile.txt'', status_staged = CHR ''?'',
                          status_unstaged = CHR ''?''\<rparr>],
            capacity = 100, rel_prefix = None\<rparr>) (Some ''newfile.txt'') = CHR ''?''"
  "format_git_status (CHR ''?'') GIT_STR_SIZE = '' ?''"
  "get_git_color (CHR ''?'') = ESC # ''[38;5;245m''"
  by (simp_all add: parse_eval lookup_eval format_git_status_def get_git_color_def
      GIT_STR_SIZE_def)

text \<open>
  C3. The path of a record of type 1 or 2 is the ninth field \<open>sscanf\<close> finds. In a
  rename record that field is the score: the rename of \<open>old.c\<close> to \<open>new.c\<close> yields one
  entry whose path is \<open>R100\<close>, so neither \<open>new.c\<close> nor \<open>old.c\<close> has a status
  afterwards.
\<close>

theorem rename_record_path:
  "parse_status_output line_rename git_context_create = Inr ctx_after_rename
   \<and> get_file_git_status (Some ctx_after_rename) (Some ''new.c'') = CHR '' ''
   \<and> get_file_git_status (Some ctx_after_rename) (Some ''old.c'') = CHR '' ''
   \<and> get_file_git_status (Some ctx_after_rename) (Some ''R100'') = CHR ''R''"
  by (simp add: parse_eval line_rename_def ctx_after_rename_def lookup_eval)

text \<open>
  C5. The path of an untracked record is the first word after the marker, not the
  rest of the line: the record of \<open>my file.txt\<close> yields an entry whose path is \<open>my\<close>,
  and \<open>my file.txt\<close> has no status afterwards.
\<close>

theorem untracked_path_cut:
  "parse_status_output ''? my file.txt'' git_context_create = Inr ctx_after_space
   \<and> get_file_git_status (Some ctx_after_space) (Some ''my file.txt'') = CHR '' ''
   \<and> get_file_git_status (Some ctx_after_space) (Some ''my'') = CHR ''?''"
  by (simp add: parse_eval ctx_after_space_def lookup_eval)

text \<open>
  Untracked records alone never grow the table: of any number of them, a fresh
  context keeps the first hundred.
\<close>

lemma untracked_only:
  assumes "list_all (\<lambda>p. no_space p \<and> length p < PATH_MAX) ps"
  shows "parse_lines (map (\<lambda>p. ''? '' @ p) ps) ctx
           = Inr (ctx\<lparr>statuses := statuses ctx @
                   take (capacity ctx - length (statuses ctx))
                     (map (\<lambda>p. \<lparr>path = p, status_staged = CHR ''?'',
                                  status_unstaged = CHR ''?''\<rparr>) ps)\<rparr>)"
  using assms
proof (induction ps arbitrary: ctx)
  case Nil
  then show ?case by simp
next
  case (Cons p ps)
  then have p: "no_space p" "length p < PATH_MAX"
    and ps: "list_all (\<lambda>p. no_space p \<and> length p < PATH_MAX) ps" by simp_all
  have step: "parse_line (''? '' @ p) ctx = Inr (add_untracked ctx p)"
    by (rule untracked_token(1) [OF p])
  show ?case
  proof (cases "length (statuses ctx) < capacity ctx")
    case True
    then obtain k where k: "capacity ctx - length (statuses ctx) = Suc k"
      by (cases "capacity ctx - length (statuses ctx)") auto
    then have k': "capacity ctx - Suc (length (statuses ctx)) = k" by simp
    show ?thesis
      using True step Cons.IH [OF ps, of "add_untracked ctx p"]
      by (simp add: add_untracked_def k k')
  next
    case False
    then show ?thesis
      using step Cons.IH [OF ps, of "add_untracked ctx p"]
      by (simp add: add_untracked_def)
  qed
qed

lemma untracked_beyond_capacity:
  assumes "list_all (\<lambda>p. no_space p \<and> length p < PATH_MAX) ps"
    and "parse_lines (map (\<lambda>p. ''? '' @ p) ps) git_context_create = Inr ctx"
  shows "length (statuses ctx) = min 100 (length ps)"
  using untracked_only [OF assms(1), of git_context_create] assms(2)
  by (auto simp: git_context_create_def INITIAL_CAPACITY_def)

text \<open>
  A hundred untracked records fill the table of a fresh context. What the parser makes
  of \<open>output_101\<close>: its lines are the hundred records, the truncated record and
  \<open>? last.txt\<close>.
\<close>

lemma strtok_lines_concat:
  assumes "\<forall>l \<in> set ls. l \<noteq> [] \<and> NL \<notin> set l"
  shows "strtok_lines (concat (map (\<lambda>l. l @ [NL]) ls) @ rest) = ls @ strtok_lines rest"
  using assms
proof (induction ls)
  case Nil
  then show ?case by simp
next
  case (Cons l ls)
  then have l: "l \<noteq> []" "NL \<notin> set l" by simp_all
  have "strtok_lines (l @ NL # (concat (map (\<lambda>l. l @ [NL]) ls) @ rest))
          = strtok_lines l @ strtok_lines (concat (map (\<lambda>l. l @ [NL]) ls) @ rest)"
    by (rule strtok_lines_append)
  also have "strtok_lines l = [l]" using l by (simp add: strtok_lines_single)
  finally show ?case using Cons by simp
qed

lemma set_untracked_name:
  "p \<in> set (untracked_names n) \<Longrightarrow> p \<noteq> [] \<and> set p = {CHR ''f''} \<and> length p \<le> n"
  by (auto simp: untracked_names_def)

lemma untracked_names_ok:
  "list_all (\<lambda>p. no_space p \<and> length p < PATH_MAX) (untracked_names INITIAL_CAPACITY)"
proof -
  have "no_space p \<and> length p < PATH_MAX" if "p \<in> set (untracked_names INITIAL_CAPACITY)" for p
  proof -
    from set_untracked_name [OF that]
    have p: "p \<noteq> []" "set p = {CHR ''f''}" "length p \<le> INITIAL_CAPACITY" by simp_all
    have "no_space p" using p(1,2) by (simp add: no_space_def list_all_iff isspace_c_def)
    moreover have "length p < PATH_MAX" using p(3) by (simp add: INITIAL_CAPACITY_def PATH_MAX_def)
    ultimately show ?thesis by simp
  qed
  then show ?thesis by (simp add: list_all_iff)
qed

lemma length_untracked_names: "length (untracked_names n) = n"
  by (simp add: untracked_names_def)

lemma last_not_listed: "''last.txt'' \<notin> set (untracked_names n)"
proof
  assume "''last.txt'' \<in> set (untracked_names n)"
  from set_untracked_name [OF this] have "set ''last.txt'' = {CHR ''f''}" by simp
  then show False by auto
qed


lemma strtok_output_101:
  "strtok_lines output_101
     = map (\<lambda>p. ''? '' @ p) (untracked_names INITIAL_CAPACITY) @ [line_truncated, ''? last.txt'']"
proof -
  let ?recs = "map (\<lambda>p. ''? '' @ p) (untracked_names INITIAL_CAPACITY)"
  let ?tail = "line_truncated @ NL # ''? last.txt''"
  have out: "output_101 = concat (map (\<lambda>l. l @ [NL]) ?recs) @ ?tail"
    by (simp add: output_101_def comp_def)
  have recs: "\<forall>l \<in> set ?recs. l \<noteq> [] \<and> NL \<notin> set l"
    using set_untracked_name by (fastforce simp: NL_def)
  have tr: "NL \<notin> set line_truncated" by (simp add: line_truncated_def NL_def)
  have l: "NL \<notin> set ''? last.txt''" by (simp add: NL_def)
  have tail: "strtok_lines ?tail = [line_truncated, ''? last.txt'']"
    unfolding strtok_lines_append strtok_lines_single [OF tr] strtok_lines_single [OF l]
    by (simp add: line_truncated_def)
  have "strtok_lines (concat (map (\<lambda>l. l @ [NL]) ?recs) @ ?tail) = ?recs @ strtok_lines ?tail"
    by (rule strtok_lines_concat [OF recs])
  then show ?thesis by (simp only: out tail)
qed

lemma parse_output_101: "parse_status_output output_101 git_context_create = Inr ctx_full"
proof -
  let ?recs = "map (\<lambda>p. ''? '' @ p) (untracked_names INITIAL_CAPACITY)"
  have first: "parse_lines ?recs git_context_create = Inr ctx_full"
    using untracked_only [OF untracked_names_ok, of git_context_create]
    by (simp add: git_context_create_def ctx_full_def length_untracked_names untracked_entry_def)
  have full: "capacity ctx_full \<le> length (statuses ctx_full)"
    by (simp add: ctx_full_def length_untracked_names)
  have last_ok: "no_space ''last.txt''" "length ''last.txt'' < PATH_MAX"
    by (simp_all add: no_space_def isspace_c_def PATH_MAX_def)
  have l: "parse_line ''? last.txt'' ctx_full = Inr ctx_full"
    using untracked_token(1) [OF last_ok, of ctx_full] untracked_token(3) [OF last_ok full]
    by simp
  have t: "parse_line line_truncated ctx_full = Inr ctx_full"
    by (rule malformed_skipped [OF malformed_truncated])
  show ?thesis
    unfolding parse_status_output_def strtok_output_101 parse_lines_append first
    using t l by simp
qed

lemma lookup_last_full: "get_file_git_status (Some ctx_full) (Some ''last.txt'') = CHR '' ''"
proof -
  have p: "map path (statuses ctx_full) = untracked_names INITIAL_CAPACITY"
    by (simp add: ctx_full_def untracked_entry_def comp_def)
  have "''last.txt'' \<notin> set (map path (statuses ctx_full))"
    unfolding p by (rule last_not_listed)
  then have "\<forall>e \<in> set (statuses ctx_full). path e \<noteq> ''last.txt''"
    by (metis image_eqI set_map)
  then have "status_scan (statuses ctx_full) ''last.txt'' = CHR '' ''"
    by (intro status_scan_clean) auto
  moreover have "full_path_of ctx_full ''last.txt'' = ''last.txt''"
    by (simp add: full_path_of_cut relative_prefix_def ctx_full_def PATH_MAX_def)
  ultimately show ?thesis by (simp add: get_file_git_status_def)
qed

lemma parse_last_alone:
  "parse_status_output ''? last.txt'' git_context_create
     = Inr \<lparr>statuses = [untracked_entry ''last.txt''], capacity = 100, rel_prefix = None\<rparr>"
  by (simp add: parse_eval untracked_entry_def)

text \<open>
  C7. The parser does not keep every well-formed line of an output that has a malformed
  one. Of a hundred untracked records, a truncated record and the record
  \<open>? last.txt\<close>, it returns the hundred entries and none for \<open>last.txt\<close>, which the
  lookup then reports clean; the record \<open>? last.txt\<close> on its own gives its entry. The
  branch for untracked records appends only while the count is below the capacity and
  never grows the table; the branch for records of type 1 and 2 doubles it first.
\<close>

theorem record_beyond_capacity_dropped:
  "parse_status_output output_101 git_context_create = Inr ctx_full
   \<and> map path (statuses ctx_full) = untracked_names 100
   \<and> length (statuses ctx_full) = 100
   \<and> ''last.txt'' \<notin> set (map path (statuses ctx_full))
   \<and> get_file_git_status (Some ctx_full) (Some ''last.txt'') = CHR '' ''
   \<and> parse_status_output ''? last.txt'' git_context_create
       = Inr \<lparr>statuses = [untracked_entry ''last.txt''], capacity = 100, rel_prefix = None\<rparr>"
proof -
  have p: "map path (statuses ctx_full) = untracked_names 100"
    by (simp add: ctx_full_def untracked_entry_def comp_def INITIAL_CAPACITY_def)
  have n: "length (statuses ctx_full) = 100"
    by (simp add: ctx_full_def length_untracked_names INITIAL_CAPACITY_def)
  have m: "''last.txt'' \<notin> set (map path (statuses ctx_full))"
    unfolding p by (rule last_not_listed)
  from parse_output_101 p n m lookup_last_full parse_last_alone show ?thesis by blast
qed

section \<open>The path buffer of the parser\<close>

lemma set_long_path: "set long_path = {CHR ''d'', CHR ''/'', CHR ''a''}"
  by (auto simp: long_path_def deep_prefix_def long_name_def)

lemma no_space_long_path: "no_space long_path"
proof -
  have "long_path \<noteq> []" by (simp add: long_path_def long_name_def)
  then show ?thesis
    by (simp add: no_space_def list_all_iff set_long_path isspace_c_def)
qed

lemma length_long_path: "length long_path = 4100"
  by (simp add: long_path_def length_deep_prefix long_name_def)

lemma c_str_append_NL:
  "NUL \<notin> set l \<Longrightarrow> c_str (l @ NL # t) = l @ NL # c_str t"
  by (induction l) (auto simp: c_str_def NUL_def NL_def)

text \<open>
  C9. The runner keeps to its buffer (\<open>exec_git_command_bounded\<close>), the parser does
  not keep to \<open>path\<close>: when the status output starts with the untracked record of
  \<open>long_path\<close>, 4100 bytes long, \<open>sscanf\<close> stores past the end of
  \<open>char path[PATH_MAX]\<close>, whatever follows in the output and wherever the ceiling cuts
  it.
\<close>

theorem long_path_overflows:
  "get_git_status (env_long_path tail) (Some ''.'') = Inl StackOverflow"
proof -
  define l where "l = ''? '' @ long_path"
  have len: "length l = 4102" by (simp add: l_def length_long_path)
  have nonul: "NUL \<notin> set l" by (simp add: l_def set_long_path NUL_def)
  have nonl: "NL \<notin> set l" by (simp add: l_def set_long_path NL_def)
  have ne: "l \<noteq> []" by (simp add: l_def)
  have tk: "take 65535 (l @ NL # tail) = l @ NL # take 61432 tail"
    using len by simp
  have cs: "c_str (take 65535 (l @ NL # tail)) = l @ NL # c_str (take 61432 tail)"
    unfolding tk by (rule c_str_append_NL [OF nonul])
  have lines: "strtok_lines (c_str (take 65535 (l @ NL # tail)))
                 = l # strtok_lines (c_str (take 61432 tail))"
    unfolding cs strtok_lines_append strtok_lines_single [OF nonl] using ne by simp
  have ov: "parse_line l ctx = Inl StackOverflow" for ctx
    unfolding l_def
    by (rule untracked_overflow [OF no_space_long_path]) (simp add: length_long_path PATH_MAX_def)
  have ps: "parse_status_output (c_str (take 65535 (l @ NL # tail))) ctx = Inl StackOverflow"
    for ctx
    unfolding parse_status_output_def lines by (simp add: ov)
  have root: "exec_git_command (git_exits 0 (''/r'' @ [NL])) [] PATH_MAX = Inr (0, ''/r'' @ [NL])"
    by (simp add: exec_git_command_root git_exits_def exited_zero_def c_str_def NUL_def NL_def)
  have st: "exec_git_command (git_exits 0 (l @ NL # tail)) [] STATUS_OUTPUT_SIZE
              = Inr (0, c_str (take 65535 (l @ NL # tail)))"
    using ne by (simp add: exec_git_command_status git_exits_def exited_zero_def)
  have out: "''? '' @ long_path @ [NL] @ tail = l @ NL # tail" by (simp add: l_def)
  have pre: "compute_prefix (strip_newline [CHR ''/'', CHR ''r'', NL]) ''/r'' = Inr None"
    by (simp add: strip_newline_def compute_prefix_cases)
  show ?thesis
    unfolding get_git_status_def env_long_path_def env_at_root_def out
    using root st ps
    by (simp add: validate_path_def getcwd_c_def PATH_MAX_def pre)
qed

section \<open>The merge of lg.c\<close>







lemma fgets_take_line:
  "NL \<notin> set l \<Longrightarrow> length l < k \<Longrightarrow> fgets_take k (l @ NL # rest) = l @ [NL]"
proof (induction l arbitrary: k)
  case Nil
  then show ?case by (cases k) auto
next
  case (Cons c l)
  then show ?case by (cases k) auto
qed

lemma fgets_lines_line:
  assumes "NL \<notin> set l" "NUL \<notin> set l" "length l + 1 < n"
  shows "fgets_lines n (l @ NL # rest) = (l @ [NL]) # fgets_lines n rest"
proof -
  have t: "fgets_take (n - Suc 0) (l @ NL # rest) = l @ [NL]"
    using assms by (intro fgets_take_line) auto
  have c: "c_str (l @ [NL]) = l @ [NL]"
    using assms(2) by (auto simp: c_str_def NUL_def NL_def takeWhile_eq_all_conv)
  show ?thesis
    using assms(3) by (subst fgets_lines.simps) (simp add: t c)
qed

lemma fgets_lines_Nil: "fgets_lines n [] = []"
  by (subst fgets_lines.simps) simp


lemmas v1_eval =
  get_git_status_v1_def v1_phase_def sscanf_name_status_def scan_s_def skip_ws_def
  isspace_c_def Let_def c_index_def MAX_PATH_def MAX_FILES_def

lemma fgets_same_path:
  "fgets_lines LINE_SIZE (''.git'' @ [CHR 0x0A]) = [''.git'' @ [CHR 0x0A]]"
  "fgets_lines LINE_SIZE (''M'' @ [CHR 0x09] @ ''f.c'' @ [CHR 0x0A]) = [''M'' @ [CHR 0x09] @ ''f.c'' @ [CHR 0x0A]]"
  "fgets_lines LINE_SIZE (''M'' @ [CHR 0x09] @ ''f.c'' @ [CHR 0x0A] @ ''M'' @ [CHR 0x09] @ ''g.c'' @ [CHR 0x0A])
     = [''M'' @ [CHR 0x09] @ ''f.c'' @ [CHR 0x0A], ''M'' @ [CHR 0x09] @ ''g.c'' @ [CHR 0x0A]]"
  "fgets_lines LINE_SIZE (''f.c'' @ [CHR 0x0A] @ ''g.c'' @ [CHR 0x0A] @ ''h.txt'' @ [CHR 0x0A])
     = [''f.c'' @ [CHR 0x0A], ''g.c'' @ [CHR 0x0A], ''h.txt'' @ [CHR 0x0A]]"
  using fgets_lines_line [of "''.git''" LINE_SIZE "[]"]
    fgets_lines_line [of "''M'' @ [CHR 0x09] @ ''f.c''" LINE_SIZE "[]"]
    fgets_lines_line [of "''M'' @ [CHR 0x09] @ ''g.c''" LINE_SIZE "[]"]
    fgets_lines_line [of "''M'' @ [CHR 0x09] @ ''f.c''" LINE_SIZE "''M'' @ [CHR 0x09] @ ''g.c'' @ [CHR 0x0A]"]
    fgets_lines_line [of "''f.c''" LINE_SIZE "''g.c'' @ [CHR 0x0A] @ ''h.txt'' @ [CHR 0x0A]"]
    fgets_lines_line [of "''g.c''" LINE_SIZE "''h.txt'' @ [CHR 0x0A]"]
    fgets_lines_line [of "''h.txt''" LINE_SIZE "[]"]
  by (simp_all add: fgets_lines_Nil LINE_SIZE_def MAX_PATH_def NL_def NUL_def)



text \<open>
  The loop over the staged source compares nothing: two staged files whose names share
  their first word give two entries with that word as their path.
\<close>

lemma v1_staged_not_deduplicated:
  "get_git_status_v1 env_staged_spaces []
     = Inr [\<lparr>v1_path = ''my'', v1_status = CHR ''M''\<rparr>,
            \<lparr>v1_path = ''my'', v1_status = CHR ''A''\<rparr>]"
proof -
  have "fgets_lines LINE_SIZE (''.git'' @ [CHR 0x0A]) = [''.git'' @ [CHR 0x0A]]"
    by (rule fgets_same_path(1))
  moreover have "fgets_lines LINE_SIZE (''M'' @ [CHR 0x09] @ ''my a.txt'' @ [CHR 0x0A]
                         @ ''A'' @ [CHR 0x09] @ ''my b.txt'' @ [CHR 0x0A])
      = [''M'' @ [CHR 0x09] @ ''my a.txt'' @ [CHR 0x0A],
         ''A'' @ [CHR 0x09] @ ''my b.txt'' @ [CHR 0x0A]]"
    using fgets_lines_line [of "''M'' @ [CHR 0x09] @ ''my a.txt''" LINE_SIZE
        "''A'' @ [CHR 0x09] @ ''my b.txt'' @ [CHR 0x0A]"]
      fgets_lines_line [of "''A'' @ [CHR 0x09] @ ''my b.txt''" LINE_SIZE "[]"]
    by (simp add: fgets_lines_Nil LINE_SIZE_def MAX_PATH_def NL_def NUL_def)
  ultimately show ?thesis
    by (simp add: env_staged_spaces_def v1_eval fgets_lines_Nil NL_def)
qed



end
